theory Spec2Isabelle
  imports Main "HOL-Library.AList"
begin

section \<open>Strings\<close>

text \<open>
  A Python \<open>str\<close> is a sequence of Unicode code points, and so is a string here: a list
  of natural numbers, one per code point. \<open>str\<close> turns a literal into its code points and
  \<open>ord\<close> a character into its code point. The character classes and the case mapping are
  those of the Unicode database of the runtime (version 14.0.0, CPython 3.11), as tables
  of ranges of code points.
\<close>

type_synonym ustr = "nat list"

definition str :: "string \<Rightarrow> ustr" where
  "str s = map of_char s"

definition ord :: "char \<Rightarrow> nat" where
  "ord c = of_char c"

definition in_ranges :: "nat \<Rightarrow> (nat \<times> nat) list \<Rightarrow> bool" where
  "in_ranges c rs = list_ex (\<lambda>(lo, hi). lo \<le> c \<and> c \<le> hi) rs"

text \<open>
  The decimal digits (category Nd) come in runs of ten, from the zero of a script to its
  nine: \<open>decimal_zeros\<close> lists the zeros. These are the characters of \<open>str.isdecimal\<close>
  and of the class \<open>\d\<close> of the \<open>re\<close> module, and \<open>int\<close> reads each as its place in
  its run.
\<close>

definition decimal_zeros :: "nat list" where
  "decimal_zeros =
    [48,
     1632, 1776, 1984, 2406, 2534, 2662, 2790, 2918, 3046, 3174, 3302, 3430, 3558, 3664, 3792,
     3872, 4160, 4240, 6112, 6160, 6470, 6608, 6784, 6800, 6992, 7088, 7232, 7248, 42528,
     43216, 43264, 43472, 43504, 43600, 44016, 65296, 66720, 68912, 69734, 69872, 69942, 70096,
     70384, 70736, 70864, 71248, 71360, 71472, 71904, 72016, 72784, 73040, 73120, 92768, 92864,
     93008, 120782, 120792, 120802, 120812, 120822, 123200, 123632, 125264, 130032]"

definition zero_of :: "nat \<Rightarrow> nat option" where
  "zero_of c = List.find (\<lambda>z. z \<le> c \<and> c \<le> z + 9) decimal_zeros"

definition isdecimal_char :: "nat \<Rightarrow> bool" where
  "isdecimal_char c = (zero_of c \<noteq> None)"

definition digit_val :: "nat \<Rightarrow> nat" where
  "digit_val c = (case zero_of c of Some z \<Rightarrow> c - z | None \<Rightarrow> 0)"

text \<open>The digits of \<open>str.isdigit\<close> that are no decimal digits: superscripts, subscripts,
  circled digits and the like.\<close>

definition other_digit_ranges :: "(nat \<times> nat) list" where
  "other_digit_ranges =
    [
     (178, 179), (185, 185), (4969, 4977), (6618, 6618), (8304, 8304), (8308, 8313),
     (8320, 8329), (9312, 9320), (9332, 9340), (9352, 9360), (9450, 9450), (9461, 9469),
     (9471, 9471), (10102, 10110), (10112, 10120), (10122, 10130), (68160, 68163),
     (69216, 69224), (69714, 69722), (127232, 127242)]"

definition isdigit_char :: "nat \<Rightarrow> bool" where
  "isdigit_char c = (isdecimal_char c \<or> in_ranges c other_digit_ranges)"

text \<open>\<open>str.isdigit\<close>: false on the empty string.\<close>

definition isdigit :: "ustr \<Rightarrow> bool" where
  "isdigit s = (s \<noteq> [] \<and> list_all isdigit_char s)"

text \<open>The digits 0 to 9 themselves, which a character range such as \<open>[1-9]\<close> in a regular
  expression is limited to.\<close>

definition ascii_digit :: "nat \<Rightarrow> bool" where
  "ascii_digit c = (ord (CHR ''0'') \<le> c \<and> c \<le> ord (CHR ''9''))"

text \<open>\<open>str.isspace\<close> on one code point, as used by \<open>strip()\<close> and \<open>split()\<close>.\<close>

definition space_ranges :: "(nat \<times> nat) list" where
  "space_ranges =
    [
     (9, 13), (28, 32), (133, 133), (160, 160), (5760, 5760), (8192, 8202), (8232, 8233),
     (8239, 8239), (8287, 8287), (12288, 12288)]"

definition isspace_char :: "nat \<Rightarrow> bool" where
  "isspace_char c = in_ranges c space_ranges"

subsection \<open>Lower case\<close>

text \<open>
  The lower case of one character. An entry \<open>(lo, hi, step, target)\<close> of \<open>lower_runs\<close>
  maps \<open>lo\<close> to \<open>target\<close> and, up to \<open>hi\<close>, every \<open>step\<close>-th code point after \<open>lo\<close> to
  the code point as far after \<open>target\<close>. U+0130, the capital I with a dot, is the one
  character whose lower case is two characters. Every other character is its own lower
  case.
\<close>

definition lower_runs :: "(nat \<times> nat \<times> nat \<times> nat) list" where
  "lower_runs =
    [
     (65, 90, 1, 97), (192, 214, 1, 224), (216, 222, 1, 248), (256, 302, 2, 257),
     (306, 310, 2, 307), (313, 327, 2, 314), (330, 374, 2, 331), (376, 376, 1, 255),
     (377, 381, 2, 378), (385, 385, 1, 595), (386, 388, 2, 387), (390, 390, 1, 596),
     (391, 391, 1, 392), (393, 394, 1, 598), (395, 395, 1, 396), (398, 398, 1, 477),
     (399, 399, 1, 601), (400, 400, 1, 603), (401, 401, 1, 402), (403, 403, 1, 608),
     (404, 404, 1, 611), (406, 406, 1, 617), (407, 407, 1, 616), (408, 408, 1, 409),
     (412, 412, 1, 623), (413, 413, 1, 626), (415, 415, 1, 629), (416, 420, 2, 417),
     (422, 422, 1, 640), (423, 423, 1, 424), (425, 425, 1, 643), (428, 428, 1, 429),
     (430, 430, 1, 648), (431, 431, 1, 432), (433, 434, 1, 650), (435, 437, 2, 436),
     (439, 439, 1, 658), (440, 440, 1, 441), (444, 444, 1, 445), (452, 452, 1, 454),
     (453, 453, 1, 454), (455, 455, 1, 457), (456, 456, 1, 457), (458, 458, 1, 460),
     (459, 475, 2, 460), (478, 494, 2, 479), (497, 497, 1, 499), (498, 500, 2, 499),
     (502, 502, 1, 405), (503, 503, 1, 447), (504, 542, 2, 505), (544, 544, 1, 414),
     (546, 562, 2, 547), (570, 570, 1, 11365), (571, 571, 1, 572), (573, 573, 1, 410),
     (574, 574, 1, 11366), (577, 577, 1, 578), (579, 579, 1, 384), (580, 580, 1, 649),
     (581, 581, 1, 652), (582, 590, 2, 583), (880, 882, 2, 881), (886, 886, 1, 887),
     (895, 895, 1, 1011), (902, 902, 1, 940), (904, 906, 1, 941), (908, 908, 1, 972),
     (910, 911, 1, 973), (913, 929, 1, 945), (931, 939, 1, 963), (975, 975, 1, 983),
     (984, 1006, 2, 985), (1012, 1012, 1, 952), (1015, 1015, 1, 1016), (1017, 1017, 1, 1010),
     (1018, 1018, 1, 1019), (1021, 1023, 1, 891), (1024, 1039, 1, 1104), (1040, 1071, 1, 1072),
     (1120, 1152, 2, 1121), (1162, 1214, 2, 1163), (1216, 1216, 1, 1231),
     (1217, 1229, 2, 1218), (1232, 1326, 2, 1233), (1329, 1366, 1, 1377),
     (4256, 4293, 1, 11520), (4295, 4295, 1, 11559), (4301, 4301, 1, 11565),
     (5024, 5103, 1, 43888), (5104, 5109, 1, 5112), (7312, 7354, 1, 4304),
     (7357, 7359, 1, 4349), (7680, 7828, 2, 7681), (7838, 7838, 1, 223), (7840, 7934, 2, 7841),
     (7944, 7951, 1, 7936), (7960, 7965, 1, 7952), (7976, 7983, 1, 7968),
     (7992, 7999, 1, 7984), (8008, 8013, 1, 8000), (8025, 8031, 2, 8017),
     (8040, 8047, 1, 8032), (8072, 8079, 1, 8064), (8088, 8095, 1, 8080),
     (8104, 8111, 1, 8096), (8120, 8121, 1, 8112), (8122, 8123, 1, 8048),
     (8124, 8124, 1, 8115), (8136, 8139, 1, 8050), (8140, 8140, 1, 8131),
     (8152, 8153, 1, 8144), (8154, 8155, 1, 8054), (8168, 8169, 1, 8160),
     (8170, 8171, 1, 8058), (8172, 8172, 1, 8165), (8184, 8185, 1, 8056),
     (8186, 8187, 1, 8060), (8188, 8188, 1, 8179), (8486, 8486, 1, 969), (8490, 8490, 1, 107),
     (8491, 8491, 1, 229), (8498, 8498, 1, 8526), (8544, 8559, 1, 8560), (8579, 8579, 1, 8580),
     (9398, 9423, 1, 9424), (11264, 11311, 1, 11312), (11360, 11360, 1, 11361),
     (11362, 11362, 1, 619), (11363, 11363, 1, 7549), (11364, 11364, 1, 637),
     (11367, 11371, 2, 11368), (11373, 11373, 1, 593), (11374, 11374, 1, 625),
     (11375, 11375, 1, 592), (11376, 11376, 1, 594), (11378, 11378, 1, 11379),
     (11381, 11381, 1, 11382), (11390, 11391, 1, 575), (11392, 11490, 2, 11393),
     (11499, 11501, 2, 11500), (11506, 11506, 1, 11507), (42560, 42604, 2, 42561),
     (42624, 42650, 2, 42625), (42786, 42798, 2, 42787), (42802, 42862, 2, 42803),
     (42873, 42875, 2, 42874), (42877, 42877, 1, 7545), (42878, 42886, 2, 42879),
     (42891, 42891, 1, 42892), (42893, 42893, 1, 613), (42896, 42898, 2, 42897),
     (42902, 42920, 2, 42903), (42922, 42922, 1, 614), (42923, 42923, 1, 604),
     (42924, 42924, 1, 609), (42925, 42925, 1, 620), (42926, 42926, 1, 618),
     (42928, 42928, 1, 670), (42929, 42929, 1, 647), (42930, 42930, 1, 669),
     (42931, 42931, 1, 43859), (42932, 42946, 2, 42933), (42948, 42948, 1, 42900),
     (42949, 42949, 1, 642), (42950, 42950, 1, 7566), (42951, 42953, 2, 42952),
     (42960, 42960, 1, 42961), (42966, 42968, 2, 42967), (42997, 42997, 1, 42998),
     (65313, 65338, 1, 65345), (66560, 66599, 1, 66600), (66736, 66771, 1, 66776),
     (66928, 66938, 1, 66967), (66940, 66954, 1, 66979), (66956, 66962, 1, 66995),
     (66964, 66965, 1, 67003), (68736, 68786, 1, 68800), (71840, 71871, 1, 71872),
     (93760, 93791, 1, 93792), (125184, 125217, 1, 125218)]"

definition lower_full :: "nat \<Rightarrow> ustr" where
  "lower_full c =
     (if c = 0x130 then [0x69, 0x307]
      else case List.find (\<lambda>(lo, hi, step, target). lo \<le> c \<and> c \<le> hi \<and> (c - lo) mod step = 0)
                  lower_runs of
             Some (lo, hi, step, target) \<Rightarrow> [target + (c - lo)]
           | None \<Rightarrow> [c])"

text \<open>
  The capital sigma U+03A3 becomes the final sigma U+03C2 when a cased character comes
  before it, with nothing but case-ignorable characters in between, and no cased character
  comes after it in the same way; otherwise it becomes U+03C3. \<open>case_ignorable_ranges\<close>
  are the case-ignorable characters and \<open>cased_ranges\<close> the cased characters that are
  not case-ignorable: the rule asks whether a character is cased only where the scan over
  the case-ignorable ones has stopped.
\<close>

definition case_ignorable_ranges :: "(nat \<times> nat) list" where
  "case_ignorable_ranges =
    [
     (39, 39), (46, 46), (58, 58), (94, 94), (96, 96), (168, 168), (173, 173), (175, 175),
     (180, 180), (183, 184), (688, 879), (884, 885), (890, 890), (900, 901), (903, 903),
     (1155, 1161), (1369, 1369), (1375, 1375), (1425, 1469), (1471, 1471), (1473, 1474),
     (1476, 1477), (1479, 1479), (1524, 1524), (1536, 1541), (1552, 1562), (1564, 1564),
     (1600, 1600), (1611, 1631), (1648, 1648), (1750, 1757), (1759, 1768), (1770, 1773),
     (1807, 1807), (1809, 1809), (1840, 1866), (1958, 1968), (2027, 2037), (2042, 2042),
     (2045, 2045), (2070, 2093), (2137, 2139), (2184, 2184), (2192, 2193), (2200, 2207),
     (2249, 2306), (2362, 2362), (2364, 2364), (2369, 2376), (2381, 2381), (2385, 2391),
     (2402, 2403), (2417, 2417), (2433, 2433), (2492, 2492), (2497, 2500), (2509, 2509),
     (2530, 2531), (2558, 2558), (2561, 2562), (2620, 2620), (2625, 2626), (2631, 2632),
     (2635, 2637), (2641, 2641), (2672, 2673), (2677, 2677), (2689, 2690), (2748, 2748),
     (2753, 2757), (2759, 2760), (2765, 2765), (2786, 2787), (2810, 2815), (2817, 2817),
     (2876, 2876), (2879, 2879), (2881, 2884), (2893, 2893), (2901, 2902), (2914, 2915),
     (2946, 2946), (3008, 3008), (3021, 3021), (3072, 3072), (3076, 3076), (3132, 3132),
     (3134, 3136), (3142, 3144), (3146, 3149), (3157, 3158), (3170, 3171), (3201, 3201),
     (3260, 3260), (3263, 3263), (3270, 3270), (3276, 3277), (3298, 3299), (3328, 3329),
     (3387, 3388), (3393, 3396), (3405, 3405), (3426, 3427), (3457, 3457), (3530, 3530),
     (3538, 3540), (3542, 3542), (3633, 3633), (3636, 3642), (3654, 3662), (3761, 3761),
     (3764, 3772), (3782, 3782), (3784, 3789), (3864, 3865), (3893, 3893), (3895, 3895),
     (3897, 3897), (3953, 3966), (3968, 3972), (3974, 3975), (3981, 3991), (3993, 4028),
     (4038, 4038), (4141, 4144), (4146, 4151), (4153, 4154), (4157, 4158), (4184, 4185),
     (4190, 4192), (4209, 4212), (4226, 4226), (4229, 4230), (4237, 4237), (4253, 4253),
     (4348, 4348), (4957, 4959), (5906, 5908), (5938, 5939), (5970, 5971), (6002, 6003),
     (6068, 6069), (6071, 6077), (6086, 6086), (6089, 6099), (6103, 6103), (6109, 6109),
     (6155, 6159), (6211, 6211), (6277, 6278), (6313, 6313), (6432, 6434), (6439, 6440),
     (6450, 6450), (6457, 6459), (6679, 6680), (6683, 6683), (6742, 6742), (6744, 6750),
     (6752, 6752), (6754, 6754), (6757, 6764), (6771, 6780), (6783, 6783), (6823, 6823),
     (6832, 6862), (6912, 6915), (6964, 6964), (6966, 6970), (6972, 6972), (6978, 6978),
     (7019, 7027), (7040, 7041), (7074, 7077), (7080, 7081), (7083, 7085), (7142, 7142),
     (7144, 7145), (7149, 7149), (7151, 7153), (7212, 7219), (7222, 7223), (7288, 7293),
     (7376, 7378), (7380, 7392), (7394, 7400), (7405, 7405), (7412, 7412), (7416, 7417),
     (7468, 7530), (7544, 7544), (7579, 7679), (8125, 8125), (8127, 8129), (8141, 8143),
     (8157, 8159), (8173, 8175), (8189, 8190), (8203, 8207), (8216, 8217), (8228, 8228),
     (8231, 8231), (8234, 8238), (8288, 8292), (8294, 8303), (8305, 8305), (8319, 8319),
     (8336, 8348), (8400, 8432), (11388, 11389), (11503, 11505), (11631, 11631),
     (11647, 11647), (11744, 11775), (11823, 11823), (12293, 12293), (12330, 12333),
     (12337, 12341), (12347, 12347), (12441, 12446), (12540, 12542), (40981, 40981),
     (42232, 42237), (42508, 42508), (42607, 42610), (42612, 42621), (42623, 42623),
     (42652, 42655), (42736, 42737), (42752, 42785), (42864, 42864), (42888, 42890),
     (42994, 42996), (43000, 43001), (43010, 43010), (43014, 43014), (43019, 43019),
     (43045, 43046), (43052, 43052), (43204, 43205), (43232, 43249), (43263, 43263),
     (43302, 43309), (43335, 43345), (43392, 43394), (43443, 43443), (43446, 43449),
     (43452, 43453), (43471, 43471), (43493, 43494), (43561, 43566), (43569, 43570),
     (43573, 43574), (43587, 43587), (43596, 43596), (43632, 43632), (43644, 43644),
     (43696, 43696), (43698, 43700), (43703, 43704), (43710, 43711), (43713, 43713),
     (43741, 43741), (43756, 43757), (43763, 43764), (43766, 43766), (43867, 43871),
     (43881, 43883), (44005, 44005), (44008, 44008), (44013, 44013), (64286, 64286),
     (64434, 64450), (65024, 65039), (65043, 65043), (65056, 65071), (65106, 65106),
     (65109, 65109), (65279, 65279), (65287, 65287), (65294, 65294), (65306, 65306),
     (65342, 65342), (65344, 65344), (65392, 65392), (65438, 65439), (65507, 65507),
     (65529, 65531), (66045, 66045), (66272, 66272), (66422, 66426), (67456, 67461),
     (67463, 67504), (67506, 67514), (68097, 68099), (68101, 68102), (68108, 68111),
     (68152, 68154), (68159, 68159), (68325, 68326), (68900, 68903), (69291, 69292),
     (69446, 69456), (69506, 69509), (69633, 69633), (69688, 69702), (69744, 69744),
     (69747, 69748), (69759, 69761), (69811, 69814), (69817, 69818), (69821, 69821),
     (69826, 69826), (69837, 69837), (69888, 69890), (69927, 69931), (69933, 69940),
     (70003, 70003), (70016, 70017), (70070, 70078), (70089, 70092), (70095, 70095),
     (70191, 70193), (70196, 70196), (70198, 70199), (70206, 70206), (70367, 70367),
     (70371, 70378), (70400, 70401), (70459, 70460), (70464, 70464), (70502, 70508),
     (70512, 70516), (70712, 70719), (70722, 70724), (70726, 70726), (70750, 70750),
     (70835, 70840), (70842, 70842), (70847, 70848), (70850, 70851), (71090, 71093),
     (71100, 71101), (71103, 71104), (71132, 71133), (71219, 71226), (71229, 71229),
     (71231, 71232), (71339, 71339), (71341, 71341), (71344, 71349), (71351, 71351),
     (71453, 71455), (71458, 71461), (71463, 71467), (71727, 71735), (71737, 71738),
     (71995, 71996), (71998, 71998), (72003, 72003), (72148, 72151), (72154, 72155),
     (72160, 72160), (72193, 72202), (72243, 72248), (72251, 72254), (72263, 72263),
     (72273, 72278), (72281, 72283), (72330, 72342), (72344, 72345), (72752, 72758),
     (72760, 72765), (72767, 72767), (72850, 72871), (72874, 72880), (72882, 72883),
     (72885, 72886), (73009, 73014), (73018, 73018), (73020, 73021), (73023, 73029),
     (73031, 73031), (73104, 73105), (73109, 73109), (73111, 73111), (73459, 73460),
     (78896, 78904), (92912, 92916), (92976, 92982), (92992, 92995), (94031, 94031),
     (94095, 94111), (94176, 94177), (94179, 94180), (110576, 110579), (110581, 110587),
     (110589, 110590), (113821, 113822), (113824, 113827), (118528, 118573), (118576, 118598),
     (119143, 119145), (119155, 119170), (119173, 119179), (119210, 119213), (119362, 119364),
     (121344, 121398), (121403, 121452), (121461, 121461), (121476, 121476), (121499, 121503),
     (121505, 121519), (122880, 122886), (122888, 122904), (122907, 122913), (122915, 122916),
     (122918, 122922), (123184, 123197), (123566, 123566), (123628, 123631), (125136, 125142),
     (125252, 125259), (127995, 127999), (917505, 917505), (917536, 917631), (917760, 917999)]"

definition cased_ranges :: "(nat \<times> nat) list" where
  "cased_ranges =
    [
     (65, 90), (97, 122), (170, 170), (181, 181), (186, 186), (192, 214), (216, 246),
     (248, 442), (444, 447), (452, 659), (661, 687), (880, 883), (886, 887), (891, 893),
     (895, 895), (902, 902), (904, 906), (908, 908), (910, 929), (931, 1013), (1015, 1153),
     (1162, 1327), (1329, 1366), (1376, 1416), (4256, 4293), (4295, 4295), (4301, 4301),
     (4304, 4346), (4349, 4351), (5024, 5109), (5112, 5117), (7296, 7304), (7312, 7354),
     (7357, 7359), (7424, 7467), (7531, 7543), (7545, 7578), (7680, 7957), (7960, 7965),
     (7968, 8005), (8008, 8013), (8016, 8023), (8025, 8025), (8027, 8027), (8029, 8029),
     (8031, 8061), (8064, 8116), (8118, 8124), (8126, 8126), (8130, 8132), (8134, 8140),
     (8144, 8147), (8150, 8155), (8160, 8172), (8178, 8180), (8182, 8188), (8450, 8450),
     (8455, 8455), (8458, 8467), (8469, 8469), (8473, 8477), (8484, 8484), (8486, 8486),
     (8488, 8488), (8490, 8493), (8495, 8500), (8505, 8505), (8508, 8511), (8517, 8521),
     (8526, 8526), (8544, 8575), (8579, 8580), (9398, 9449), (11264, 11387), (11390, 11492),
     (11499, 11502), (11506, 11507), (11520, 11557), (11559, 11559), (11565, 11565),
     (42560, 42605), (42624, 42651), (42786, 42863), (42865, 42887), (42891, 42894),
     (42896, 42954), (42960, 42961), (42963, 42963), (42965, 42969), (42997, 42998),
     (43002, 43002), (43824, 43866), (43872, 43880), (43888, 43967), (64256, 64262),
     (64275, 64279), (65313, 65338), (65345, 65370), (66560, 66639), (66736, 66771),
     (66776, 66811), (66928, 66938), (66940, 66954), (66956, 66962), (66964, 66965),
     (66967, 66977), (66979, 66993), (66995, 67001), (67003, 67004), (68736, 68786),
     (68800, 68850), (71840, 71903), (93760, 93823), (119808, 119892), (119894, 119964),
     (119966, 119967), (119970, 119970), (119973, 119974), (119977, 119980), (119982, 119993),
     (119995, 119995), (119997, 120003), (120005, 120069), (120071, 120074), (120077, 120084),
     (120086, 120092), (120094, 120121), (120123, 120126), (120128, 120132), (120134, 120134),
     (120138, 120144), (120146, 120485), (120488, 120512), (120514, 120538), (120540, 120570),
     (120572, 120596), (120598, 120628), (120630, 120654), (120656, 120686), (120688, 120712),
     (120714, 120744), (120746, 120770), (120772, 120779), (122624, 122633), (122635, 122654),
     (125184, 125251), (127280, 127305), (127312, 127337), (127344, 127369)]"

definition case_ignorable :: "nat \<Rightarrow> bool" where
  "case_ignorable c = in_ranges c case_ignorable_ranges"

definition cased :: "nat \<Rightarrow> bool" where
  "cased c = in_ranges c cased_ranges"

definition final_sigma :: "ustr \<Rightarrow> ustr \<Rightarrow> bool" where
  "final_sigma passed rest =
     (case dropWhile case_ignorable (rev passed) of
        [] \<Rightarrow> False
      | c # _ \<Rightarrow>
          cased c \<and>
          (case dropWhile case_ignorable rest of [] \<Rightarrow> True | c' # _ \<Rightarrow> \<not> cased c'))"

text \<open>The loop of \<open>str.lower\<close> over the characters, with those already passed.\<close>

fun lower_loop :: "ustr \<Rightarrow> ustr \<Rightarrow> ustr" where
  "lower_loop passed [] = []"
| "lower_loop passed (c # cs) =
     (if c = 0x3A3 then [if final_sigma passed cs then 0x3C2 else 0x3C3] else lower_full c)
       @ lower_loop (passed @ [c]) cs"

text \<open>\<open>str.lower\<close>: a string of ASCII characters takes the short way, on which A to Z
  move up by 32.\<close>

definition ascii_lower :: "nat \<Rightarrow> nat" where
  "ascii_lower c = (if ord (CHR ''A'') \<le> c \<and> c \<le> ord (CHR ''Z'') then c + 32 else c)"

definition lower :: "ustr \<Rightarrow> ustr" where
  "lower s = (if list_all (\<lambda>c. c < 128) s then map ascii_lower s else lower_loop [] s)"

section \<open>Exceptions\<close>

text \<open>The exceptions the program can raise; \<open>ValueError\<close> carries its message.\<close>

datatype exn = ValueError ustr | IndexError | KeyError | AttributeError ustr

section \<open>Fields\<close>

definition msg_phone_10_digits :: ustr where
  \<comment> \<open>the message of \<open>Phone.__init__\<close>: the phone number must consist of 10 digits\<close>
  "msg_phone_10_digits =
     [1053, 1086, 1084, 1077, 1088, 32, 1090, 1077, 1083, 1077, 1092, 1086, 1085, 1091, 32,
      1084, 1072, 1108, 32, 1089, 1082, 1083, 1072, 1076, 1072, 1090, 1080, 1089, 1103, 32,
      1079, 32, 49, 48, 32, 1094, 1080, 1092, 1088, 46]"

text \<open>\<open>Phone(val)\<close>: the stored value, or the \<open>ValueError\<close> of the constructor.\<close>

definition Phone :: "ustr \<Rightarrow> exn + ustr" where
  "Phone val =
     (if \<not> (isdigit val \<and> length val = 10) then Inl (ValueError msg_phone_10_digits)
      else Inr val)"

text \<open>The specification's reading of a valid phone: exactly ten decimal digits.\<close>

definition ten_decimal_digits :: "ustr \<Rightarrow> bool" where
  "ten_decimal_digits s = (length s = 10 \<and> list_all isdecimal_char s)"

text \<open>The digit 0 to 9 of a value below ten.\<close>

definition digit_char :: "nat \<Rightarrow> nat" where
  "digit_char n = ord (CHR ''0'') + n"

text \<open>\<open>str(n)\<close> of a natural number, and \<open>zfill\<close>.\<close>

fun str_nat :: "nat \<Rightarrow> ustr" where
  "str_nat n = (if n < 10 then [digit_char n] else str_nat (n div 10) @ [digit_char (n mod 10)])"

declare str_nat.simps [simp del]

definition zfill :: "nat \<Rightarrow> ustr \<Rightarrow> ustr" where
  "zfill w s = replicate (w - length s) (ord (CHR ''0'')) @ s"

text \<open>The value \<open>int\<close> gives a string of decimal digits, of whatever script.\<close>

definition int_digits :: "ustr \<Rightarrow> nat" where
  "int_digits s = foldl (\<lambda>acc c. 10 * acc + digit_val c) 0 s"

section \<open>Dates\<close>

text \<open>
  \<open>datetime.date\<close>: a year from 1 to 9999, a month and a day of that month, in the
  proleptic Gregorian calendar. The constructor raises \<open>ValueError\<close> on anything else.
\<close>

record date =
  year :: nat
  month :: nat
  day :: nat

definition is_leap :: "nat \<Rightarrow> bool" where
  "is_leap y = (y mod 4 = 0 \<and> (y mod 100 \<noteq> 0 \<or> y mod 400 = 0))"

definition days_in_month :: "nat \<Rightarrow> nat \<Rightarrow> nat" where
  "days_in_month y m =
     (if m = 2 then (if is_leap y then 29 else 28)
      else if m = 4 \<or> m = 6 \<or> m = 9 \<or> m = 11 then 30 else 31)"

definition days_before_year :: "nat \<Rightarrow> int" where
  "days_before_year y =
     (let n = int y - 1 in n * 365 + n div 4 - n div 100 + n div 400)"

definition days_before_month :: "nat \<Rightarrow> nat \<Rightarrow> int" where
  "days_before_month y m = int (sum_list (map (days_in_month y) [1..<m]))"

definition toordinal :: "date \<Rightarrow> int" where
  "toordinal d = days_before_year (year d) + days_before_month (year d) (month d) + int (day d)"

definition valid_date :: "nat \<Rightarrow> nat \<Rightarrow> nat \<Rightarrow> bool" where
  "valid_date y m d =
     (1 \<le> y \<and> y \<le> 9999 \<and> 1 \<le> m \<and> m \<le> 12 \<and> 1 \<le> d \<and> d \<le> days_in_month y m)"

text \<open>\<open>date(y, m, d)\<close> with the checks of the constructor, in its order.\<close>

definition new_date :: "nat \<Rightarrow> nat \<Rightarrow> nat \<Rightarrow> exn + date" where
  "new_date y m d =
     (if \<not> (1 \<le> y \<and> y \<le> 9999)
      then Inl (ValueError (str ''year '' @ str_nat y @ str '' is out of range''))
      else if \<not> (1 \<le> m \<and> m \<le> 12) then Inl (ValueError (str ''month must be in 1..12''))
      else if \<not> (1 \<le> d \<and> d \<le> days_in_month y m)
      then Inl (ValueError (str ''day is out of range for month''))
      else Inr \<lparr>year = y, month = m, day = d\<rparr>)"

text \<open>\<open>d.replace(year=y)\<close> builds a new date, so it can raise.\<close>

definition replace_year :: "date \<Rightarrow> nat \<Rightarrow> exn + date" where
  "replace_year d y = new_date y (month d) (day d)"

text \<open>\<open>a < b\<close> on dates compares year, month and day in that order.\<close>

definition date_less :: "date \<Rightarrow> date \<Rightarrow> bool" where
  "date_less a b =
     (year a < year b \<or> (year a = year b \<and>
        (month a < month b \<or> (month a = month b \<and> day a < day b))))"

text \<open>\<open>(a - b).days\<close>.\<close>

definition days_between :: "date \<Rightarrow> date \<Rightarrow> int" where
  "days_between a b = toordinal a - toordinal b"

subsection \<open>Parsing and formatting with the format \<open>%d.%m.%Y\<close>\<close>

text \<open>
  \<open>datetime.strptime(s, "%d.%m.%Y")\<close> matches \<open>s\<close> against the regular expression
  \<^verbatim>\<open>(?P<d>3[0-1]|[1-2]\d|0[1-9]|[1-9]| [1-9])\.(?P<m>1[0-2]|0[1-9]|[1-9])\.(?P<Y>\d\d\d\d)\<close>,
  raises \<open>ValueError\<close> when it does not match or when text remains after the match,
  converts the three groups with \<open>int\<close> and builds the date, which raises \<open>ValueError\<close>
  for a day the month does not have and for the year 0. No group can contain a dot, so
  the string matches in full exactly when its three dot-separated fields match the three
  groups.
\<close>

fun split_on :: "nat \<Rightarrow> ustr \<Rightarrow> ustr list" where
  "split_on c [] = [[]]"
| "split_on c (x # xs) =
     (if x = c then [] # split_on c xs
      else (case split_on c xs of [] \<Rightarrow> [[x]] | w # ws \<Rightarrow> (x # w) # ws))"

definition nonzero_digit :: "nat \<Rightarrow> bool" where
  "nonzero_digit c = (ord (CHR ''1'') \<le> c \<and> c \<le> ord (CHR ''9''))"

text \<open>The group \<open>d\<close>, alternative by alternative.\<close>

fun match_d :: "ustr \<Rightarrow> nat option" where
  "match_d [a, b] =
     (if a = ord (CHR ''3'') \<and> (b = ord (CHR ''0'') \<or> b = ord (CHR ''1'')) then Some (int_digits [a, b])
      else if (a = ord (CHR ''1'') \<or> a = ord (CHR ''2'')) \<and> isdecimal_char b then Some (int_digits [a, b])
      else if a = ord (CHR ''0'') \<and> nonzero_digit b then Some (int_digits [a, b])
      else if a = ord (CHR '' '') \<and> nonzero_digit b then Some (int_digits [b])
      else None)"
| "match_d [a] = (if nonzero_digit a then Some (int_digits [a]) else None)"
| "match_d _ = None"

text \<open>The group \<open>m\<close>.\<close>

fun match_m :: "ustr \<Rightarrow> nat option" where
  "match_m [a, b] =
     (if a = ord (CHR ''1'') \<and> (b = ord (CHR ''0'') \<or> b = ord (CHR ''1'') \<or> b = ord (CHR ''2''))
      then Some (int_digits [a, b])
      else if a = ord (CHR ''0'') \<and> nonzero_digit b then Some (int_digits [a, b])
      else None)"
| "match_m [a] = (if nonzero_digit a then Some (int_digits [a]) else None)"
| "match_m _ = None"

text \<open>The group \<open>Y\<close>: exactly four decimal digits.\<close>

definition match_Y :: "ustr \<Rightarrow> nat option" where
  "match_Y s = (if length s = 4 \<and> list_all isdecimal_char s then Some (int_digits s) else None)"

text \<open>\<open>None\<close> stands for the \<open>ValueError\<close> of \<open>strptime\<close>; its only caller drops the
  message.\<close>

definition strptime_dmY :: "ustr \<Rightarrow> date option" where
  "strptime_dmY s =
     (case split_on (ord (CHR ''.'')) s of
        [ds, ms, ys] \<Rightarrow>
          (case (match_d ds, match_m ms, match_Y ys) of
             (Some d, Some m, Some y) \<Rightarrow>
               (case new_date y m d of Inr dt \<Rightarrow> Some dt | Inl e \<Rightarrow> None)
           | _ \<Rightarrow> None)
      | _ \<Rightarrow> None)"

text \<open>\<open>d.strftime("%d.%m.%Y")\<close>, which the runtime hands to the C library: day and month
  zero-padded to two digits, the year as it is, so without leading zeros below 1000.\<close>

definition strftime_dmY :: "date \<Rightarrow> ustr" where
  "strftime_dmY d =
     zfill 2 (str_nat (day d)) @ str ''.'' @ zfill 2 (str_nat (month d)) @ str ''.''
       @ str_nat (year d)"

text \<open>\<open>Birthday(val)\<close>: the stored date, or the \<open>ValueError\<close> raised in the handler of
  the constructor.\<close>

definition Birthday :: "ustr \<Rightarrow> exn + date" where
  "Birthday val =
     (case strptime_dmY val of
        Some birthday_date \<Rightarrow> Inr birthday_date
      | None \<Rightarrow> Inl (ValueError (str ''Invalid date format. Use DD.MM.YYYY'')))"

text \<open>The specification's reading of the format: two digits, a dot, two digits, a dot,
  four digits; and of the date the three numbers denote.\<close>

definition matches_DD_MM_YYYY :: "ustr \<Rightarrow> bool" where
  "matches_DD_MM_YYYY s =
     (\<exists>a b c d e f g h. s = [a, b, ord (CHR ''.''), c, d, ord (CHR ''.''), e, f, g, h]
        \<and> list_all ascii_digit [a, b, c, d, e, f, g, h])"

definition denotes_real_date :: "ustr \<Rightarrow> bool" where
  "denotes_real_date s =
     valid_date (int_digits (drop 6 s)) (int_digits (take 2 (drop 3 s))) (int_digits (take 2 s))"

text \<open>
  The strings that stand for a date under the regular expression above: the day with two
  digits, or a day below ten with one digit or with a space and one digit; the month with
  two digits, or a month below ten with one digit; the year with four digits.
\<close>

text \<open>A decimal digit of any script as the digit 0 to 9 of the same value.\<close>

definition to_ascii_digit :: "nat \<Rightarrow> nat" where
  "to_ascii_digit c = (if isdecimal_char c then digit_char (digit_val c) else c)"

definition day_forms :: "nat \<Rightarrow> ustr list" where
  "day_forms n =
     zfill 2 (str_nat n) # (if n < 10 then [str_nat n, ord (CHR '' '') # str_nat n] else [])"

definition month_forms :: "nat \<Rightarrow> ustr list" where
  "month_forms n = zfill 2 (str_nat n) # (if n < 10 then [str_nat n] else [])"

definition accepted_forms :: "date \<Rightarrow> ustr list" where
  "accepted_forms d =
     concat (map (\<lambda>ds. map (\<lambda>ms. ds @ str ''.'' @ ms @ str ''.'' @ zfill 4 (str_nat (year d)))
                          (month_forms (month d)))
                 (day_forms (day d)))"

section \<open>Records\<close>

record Record =
  name :: ustr
  phones :: "ustr list"
  birthday :: "date option"

text \<open>\<open>Record(name)\<close>.\<close>

definition Record_init :: "ustr \<Rightarrow> Record" where
  "Record_init n = \<lparr>name = n, phones = [], birthday = None\<rparr>"

text \<open>Methods that change the record return the changed record; one that raises leaves
  the record as it was.\<close>

definition add_phone :: "Record \<Rightarrow> ustr \<Rightarrow> exn + Record" where
  "add_phone r phone_str =
     (case Phone phone_str of
        Inl e \<Rightarrow> Inl e
      | Inr phone_obj \<Rightarrow> Inr (r\<lparr>phones := phones r @ [phone_obj]\<rparr>))"

text \<open>\<open>date.today()\<close> is a parameter of the two methods that read the clock.\<close>

definition days_to_birthday :: "date \<Rightarrow> Record \<Rightarrow> exn + int option" where
  "days_to_birthday today r =
     (case birthday r of
        None \<Rightarrow> Inr None
      | Some bday \<Rightarrow>
          (case replace_year bday (year today) of
             Inl e \<Rightarrow> Inl e
           | Inr next_birthday \<Rightarrow>
               if date_less next_birthday today
               then (case replace_year bday (year today + 1) of
                       Inl e \<Rightarrow> Inl e
                     | Inr next_birthday' \<Rightarrow> Inr (Some (days_between next_birthday' today)))
               else Inr (Some (days_between next_birthday today))))"

definition msg_birthday_set_1 :: ustr where
  \<comment> \<open>"birthday for ", the head of the message of \<open>add_birthday\<close>\<close>
  "msg_birthday_set_1 =
     [1044, 1077, 1085, 1100, 32, 1085, 1072, 1088, 1086, 1076, 1078, 1077, 1085, 1085, 1103,
      32, 1076, 1083, 1103, 32]"

definition msg_birthday_set_2 :: ustr where
  \<comment> \<open>" set to "\<close>
  "msg_birthday_set_2 =
     [32, 1074, 1089, 1090, 1072, 1085, 1086, 1074, 1083, 1077, 1085, 1086, 32, 1085, 1072, 32]"

definition Record_add_birthday :: "Record \<Rightarrow> ustr \<Rightarrow> exn + (Record \<times> ustr)" where
  "Record_add_birthday r birthday_str =
     (case Birthday birthday_str of
        Inl e \<Rightarrow> Inl e
      | Inr b \<Rightarrow>
          Inr (r\<lparr>birthday := Some b\<rparr>,
               msg_birthday_set_1 @ name r @ msg_birthday_set_2 @ strftime_dmY b
                 @ str ''.''))"

text \<open>\<open>sep.join(xs)\<close>.\<close>

fun join :: "ustr \<Rightarrow> ustr list \<Rightarrow> ustr" where
  "join sep [] = []"
| "join sep [x] = x"
| "join sep (x # y # ys) = x @ sep @ join sep (y # ys)"

definition msg_no_phones :: ustr where
  \<comment> \<open>"no phones"\<close>
  "msg_no_phones =
     [1053, 1077, 1084, 1072, 1108, 32, 1090, 1077, 1083, 1077, 1092, 1086, 1085, 1110, 1074]"

definition msg_no_data :: ustr where
  \<comment> \<open>"no data"\<close>
  "msg_no_data = [1053, 1077, 1084, 1072, 1108, 32, 1076, 1072, 1085, 1080, 1093]"

definition msg_str_name :: ustr where
  \<comment> \<open>"Name: "\<close>
  "msg_str_name = [1030, 1084, 39, 1103, 58, 32]"

definition msg_str_phones :: ustr where
  \<comment> \<open>" | Phones: "\<close>
  "msg_str_phones = [32, 124, 32, 1058, 1077, 1083, 1077, 1092, 1086, 1085, 1080, 58, 32]"

definition msg_str_birthday :: ustr where
  \<comment> \<open>" | Birthday: "\<close>
  "msg_str_birthday =
     [32, 124, 32, 1044, 1077, 1085, 1100, 32, 1085, 1072, 1088, 1086, 1076, 1078, 1077, 1085,
      1085, 1103, 58, 32]"

text \<open>\<open>Record.__str__\<close>.\<close>

definition Record_str :: "Record \<Rightarrow> ustr" where
  "Record_str r =
     (let phones_str = (if phones r \<noteq> [] then join (str '', '') (phones r)
                        else msg_no_phones);
          birthday_str = (case birthday r of Some b \<Rightarrow> strftime_dmY b
                          | None \<Rightarrow> msg_no_data)
      in msg_str_name @ name r @ msg_str_phones @ phones_str @ msg_str_birthday
           @ birthday_str)"

section \<open>The address book\<close>

text \<open>
  \<open>AddressBook.data\<close> is a dictionary, which keeps its keys in the order of their first
  insertion: an association list in that order. Assigning to a key that is present
  replaces the value in place, assigning to a new key appends.
\<close>

type_synonym AddressBook = "(ustr \<times> Record) list"

definition add_record :: "AddressBook \<Rightarrow> Record \<Rightarrow> AddressBook" where
  "add_record book record = AList.update (lower (name record)) record book"

definition find_record :: "AddressBook \<Rightarrow> ustr \<Rightarrow> Record option" where
  \<comment> \<open>\<open>AddressBook.find\<close>\<close>
  "find_record book n = map_of book (lower n)"

definition msg_record :: ustr where
  \<comment> \<open>"Record "\<close>
  "msg_record = [1047, 1072, 1087, 1080, 1089, 32]"

definition msg_deleted :: ustr where
  \<comment> \<open>" deleted."\<close>
  "msg_deleted = [32, 1074, 1080, 1076, 1072, 1083, 1077, 1085, 1086, 46]"

definition msg_record_not_found :: ustr where
  \<comment> \<open>"Record not found."\<close>
  "msg_record_not_found =
     [1047, 1072, 1087, 1080, 1089, 32, 1085, 1077, 32, 1079, 1085, 1072, 1081, 1076, 1077,
      1085, 1086, 46]"

definition delete_record :: "AddressBook \<Rightarrow> ustr \<Rightarrow> ustr \<times> AddressBook" where
  \<comment> \<open>\<open>AddressBook.delete\<close>\<close>
  "delete_record book n =
     (if lower n \<in> fst ` set book
      then (msg_record @ n @ msg_deleted, AList.delete (lower n) book)
      else (msg_record_not_found, book))"

text \<open>The loop of \<open>get_upcoming_birthdays\<close> over \<open>self.data.values()\<close>, with the list
  \<open>result\<close> it appends to. An exception leaves the loop at once.\<close>

fun upcoming_loop ::
  "date \<Rightarrow> int \<Rightarrow> Record list \<Rightarrow> (ustr \<times> int) list \<Rightarrow> exn + (ustr \<times> int) list"
where
  "upcoming_loop today days [] result = Inr result"
| "upcoming_loop today days (record # rest) result =
     (case birthday record of
        None \<Rightarrow> upcoming_loop today days rest result
      | Some bday \<Rightarrow>
          (case replace_year bday (year today) of
             Inl e \<Rightarrow> Inl e
           | Inr next_bday \<Rightarrow>
               if date_less next_bday today
               then (case replace_year bday (year today + 1) of
                       Inl e \<Rightarrow> Inl e
                     | Inr next_bday' \<Rightarrow>
                         (let delta = days_between next_bday' today
                          in upcoming_loop today days rest
                               (if delta \<le> days then result @ [(name record, delta)]
                                else result)))
               else (let delta = days_between next_bday today
                     in upcoming_loop today days rest
                          (if delta \<le> days then result @ [(name record, delta)]
                           else result))))"

definition get_upcoming_birthdays ::
  "date \<Rightarrow> int \<Rightarrow> AddressBook \<Rightarrow> exn + (ustr \<times> int) list" where
  "get_upcoming_birthdays today days book = upcoming_loop today days (map snd book) []"

section \<open>Command handlers\<close>

text \<open>
  A handler gets the argument tokens and the book and returns what it returns or raises,
  together with the book as it has left it: a change made before an exception stays.
  Records are objects shared with the book, so a method that changes the record found
  under a key changes the book under that key.
\<close>

type_synonym outcome = "(exn + ustr) \<times> AddressBook"

text \<open>The decorator \<open>input_error\<close>, applied to what the decorated function did. An
  exception it has no clause for passes through.\<close>

definition input_error :: "outcome \<Rightarrow> outcome" where
  "input_error r =
     (case r of
        (Inl (ValueError e), book) \<Rightarrow>
          (Inr (if e \<noteq> [] then e else str ''Invalid data provided.''), book)
      | (Inl IndexError, book) \<Rightarrow> (Inr (str ''Enter the argument for the command''), book)
      | (Inl KeyError, book) \<Rightarrow> (Inr (str ''Contact not found.''), book)
      | _ \<Rightarrow> r)"

text \<open>The exception of an unpacking assignment \<open>a, b, *_ = args\<close> with \<open>need\<close> names
  before the star and \<open>got\<close> values.\<close>

definition unpack_error :: "nat \<Rightarrow> nat \<Rightarrow> exn" where
  "unpack_error need got =
     ValueError (str ''not enough values to unpack (expected at least '' @ str_nat need
       @ str '', got '' @ str_nat got @ str '')'')"

definition msg_contact_updated :: ustr where
  \<comment> \<open>"Contact updated."\<close>
  "msg_contact_updated =
     [1050, 1086, 1085, 1090, 1072, 1082, 1090, 32, 1086, 1085, 1086, 1074, 1083, 1077, 1085,
      1086, 46]"

definition msg_contact_added :: ustr where
  \<comment> \<open>"Contact added."\<close>
  "msg_contact_added =
     [1050, 1086, 1085, 1090, 1072, 1082, 1090, 32, 1076, 1086, 1076, 1072, 1085, 1086, 46]"

definition add_contact_body :: "ustr list \<Rightarrow> AddressBook \<Rightarrow> outcome" where
  "add_contact_body args book =
     (case args of
        n # phone # _ \<Rightarrow>
          (let (record, message, book') =
                 (case find_record book n of
                    Some r \<Rightarrow> (r, msg_contact_updated, book)
                  | None \<Rightarrow> (Record_init n, msg_contact_added, add_record book (Record_init n)))
           in if phone \<noteq> []
              then (case add_phone record phone of
                      Inl e \<Rightarrow> (Inl e, book')
                    | Inr record' \<Rightarrow> (Inr message, AList.update (lower n) record' book'))
              else (Inr message, book'))
      | _ \<Rightarrow> (Inl (unpack_error 2 (length args)), book))"

definition add_contact :: "ustr list \<Rightarrow> AddressBook \<Rightarrow> outcome" where
  "add_contact args book = input_error (add_contact_body args book)"

text \<open>\<open>Record\<close> has no method \<open>edit_phone\<close>: looking the attribute up raises.\<close>

definition no_edit_phone :: exn where
  "no_edit_phone =
     AttributeError (str ([CHR 0x27] @ ''Record'' @ [CHR 0x27] @ '' object has no attribute ''
       @ [CHR 0x27] @ ''edit_phone'' @ [CHR 0x27]))"

definition change_contact_body :: "ustr list \<Rightarrow> AddressBook \<Rightarrow> outcome" where
  "change_contact_body args book =
     (case args of
        n # old_phone # new_phone # _ \<Rightarrow>
          (case find_record book n of
             None \<Rightarrow> (Inl KeyError, book)
           | Some record \<Rightarrow> (Inl no_edit_phone, book))
      | _ \<Rightarrow> (Inl (unpack_error 3 (length args)), book))"

definition change_contact :: "ustr list \<Rightarrow> AddressBook \<Rightarrow> outcome" where
  "change_contact args book = input_error (change_contact_body args book)"

definition msg_no_phones_dot :: ustr where
  \<comment> \<open>"no phones."\<close>
  "msg_no_phones_dot =
     [1053, 1077, 1084, 1072, 1108, 32, 1090, 1077, 1083, 1077, 1092, 1086, 1085, 1110, 1074,
      46]"

definition phone_body :: "ustr list \<Rightarrow> AddressBook \<Rightarrow> outcome" where
  "phone_body args book =
     (case args of
        n # _ \<Rightarrow>
          (case find_record book n of
             None \<Rightarrow> (Inl KeyError, book)
           | Some record \<Rightarrow>
               if phones record \<noteq> [] then (Inr (join (str ''; '') (phones record)), book)
               else (Inr msg_no_phones_dot, book))
      | _ \<Rightarrow> (Inl (unpack_error 1 (length args)), book))"

definition phone :: "ustr list \<Rightarrow> AddressBook \<Rightarrow> outcome" where
  "phone args book = input_error (phone_body args book)"

definition msg_book_empty :: ustr where
  \<comment> \<open>"The address book is empty."\<close>
  "msg_book_empty =
     [1040, 1076, 1088, 1077, 1089, 1085, 1072, 32, 1082, 1085, 1080, 1075, 1072, 32, 1087,
      1086, 1088, 1086, 1078, 1085, 1103, 46]"

definition show_all_body :: "ustr list \<Rightarrow> AddressBook \<Rightarrow> outcome" where
  "show_all_body args book =
     (if book = [] then (Inr msg_book_empty, book)
      else (Inr (join (str [CHR 0x0A]) (map (\<lambda>kv. Record_str (snd kv)) book)), book))"

definition show_all :: "ustr list \<Rightarrow> AddressBook \<Rightarrow> outcome" where
  "show_all args book = input_error (show_all_body args book)"

definition add_birthday_body :: "ustr list \<Rightarrow> AddressBook \<Rightarrow> outcome" where
  "add_birthday_body args book =
     (case args of
        n # birthday_str # _ \<Rightarrow>
          (case find_record book n of
             None \<Rightarrow> (Inl KeyError, book)
           | Some record \<Rightarrow>
               (case Record_add_birthday record birthday_str of
                  Inl e \<Rightarrow> (Inl e, book)
                | Inr (record', message) \<Rightarrow> (Inr message, AList.update (lower n) record' book)))
      | _ \<Rightarrow> (Inl (unpack_error 2 (length args)), book))"

definition add_birthday :: "ustr list \<Rightarrow> AddressBook \<Rightarrow> outcome" where
  "add_birthday args book = input_error (add_birthday_body args book)"

definition msg_birthday_not_set :: ustr where
  \<comment> \<open>"The date of birth is not set."\<close>
  "msg_birthday_not_set =
     [1044, 1072, 1090, 1072, 32, 1085, 1072, 1088, 1086, 1076, 1078, 1077, 1085, 1085, 1103,
      32, 1085, 1077, 32, 1074, 1089, 1090, 1072, 1085, 1086, 1074, 1083, 1077, 1085, 1072,
      46]"

definition show_birthday_body :: "ustr list \<Rightarrow> AddressBook \<Rightarrow> outcome" where
  "show_birthday_body args book =
     (case args of
        n # _ \<Rightarrow>
          (case find_record book n of
             None \<Rightarrow> (Inl KeyError, book)
           | Some record \<Rightarrow>
               (case birthday record of
                  Some b \<Rightarrow>
                    (Inr (name record @ str ([CHR 0x27] @ ''s birthday: '') @ strftime_dmY b),
                     book)
                | None \<Rightarrow> (Inr msg_birthday_not_set, book)))
      | _ \<Rightarrow> (Inl (unpack_error 1 (length args)), book))"

definition show_birthday :: "ustr list \<Rightarrow> AddressBook \<Rightarrow> outcome" where
  "show_birthday args book = input_error (show_birthday_body args book)"

definition msg_no_upcoming :: ustr where
  \<comment> \<open>"No contacts with a birthday during the next week."\<close>
  "msg_no_upcoming =
     [1053, 1077, 1084, 1072, 1108, 32, 1082, 1086, 1085, 1090, 1072, 1082, 1090, 1110, 1074,
      32, 1079, 32, 1076, 1085, 1077, 1084, 32, 1085, 1072, 1088, 1086, 1076, 1078, 1077, 1085,
      1085, 1103, 32, 1087, 1088, 1086, 1090, 1103, 1075, 1086, 1084, 32, 1085, 1072, 1089,
      1090, 1091, 1087, 1085, 1086, 1075, 1086, 32, 1090, 1080, 1078, 1085, 1103, 46]"

definition msg_in :: ustr where
  \<comment> \<open>" in "\<close>
  "msg_in = [32, 1095, 1077, 1088, 1077, 1079, 32]"

definition msg_days :: ustr where
  \<comment> \<open>" days"\<close>
  "msg_days = [32, 1076, 1085, 1110, 1074]"

text \<open>\<open>str(i)\<close> of an integer.\<close>

definition str_int :: "int \<Rightarrow> ustr" where
  "str_int i = (if i < 0 then ord (CHR ''-'') # str_nat (nat (- i)) else str_nat (nat i))"

definition birthdays_body :: "date \<Rightarrow> ustr list \<Rightarrow> AddressBook \<Rightarrow> outcome" where
  "birthdays_body today args book =
     (case get_upcoming_birthdays today 7 book of
        Inl e \<Rightarrow> (Inl e, book)
      | Inr upcoming \<Rightarrow>
          if upcoming = [] then (Inr msg_no_upcoming, book)
          else (Inr (join (str [CHR 0x0A])
                  (map (\<lambda>(n, days_left). n @ msg_in @ str_int days_left @ msg_days)
                       upcoming)), book))"

definition birthdays :: "date \<Rightarrow> ustr list \<Rightarrow> AddressBook \<Rightarrow> outcome" where
  "birthdays today args book = input_error (birthdays_body today args book)"

section \<open>The command loop\<close>

text \<open>\<open>s.strip()\<close> and \<open>s.split()\<close>: the maximal runs of characters that are not
  whitespace, gathered from left to right.\<close>

definition strip :: "ustr \<Rightarrow> ustr" where
  "strip s = rev (dropWhile isspace_char (rev (dropWhile isspace_char s)))"

fun split_loop :: "ustr \<Rightarrow> ustr \<Rightarrow> ustr list" where
  "split_loop word [] = (if word = [] then [] else [word])"
| "split_loop word (c # cs) =
     (if isspace_char c then (if word = [] then split_loop [] cs else word # split_loop [] cs)
      else split_loop (word @ [c]) cs)"

definition split_ws :: "ustr \<Rightarrow> ustr list" where
  "split_ws s = split_loop [] s"

definition parse_input :: "ustr \<Rightarrow> ustr \<times> ustr list" where
  "parse_input user_input =
     (let tokens = split_ws (strip user_input)
      in case tokens of [] \<Rightarrow> ([], []) | t # ts \<Rightarrow> (lower t, ts))"

text \<open>
  One turn of the loop of \<open>main\<close> on one input line, read on the day \<open>today\<close>: the lines
  it prints and the book afterwards. The loop goes on, or ends after \<open>exit\<close> or
  \<open>close\<close>, or an exception that nothing catches leaves \<open>main\<close> and ends the process.
\<close>

datatype turn =
    Continue "ustr list" AddressBook
  | Exit "ustr list" AddressBook
  | Uncaught exn AddressBook

definition print_result :: "outcome \<Rightarrow> turn" where
  "print_result r = (case r of (Inr s, book) \<Rightarrow> Continue [s] book
                     | (Inl e, book) \<Rightarrow> Uncaught e book)"

definition main_step :: "date \<Rightarrow> ustr \<Rightarrow> AddressBook \<Rightarrow> turn" where
  "main_step today user_input book =
     (let (command, args) = parse_input user_input
      in if command = str ''exit'' \<or> command = str ''close'' then Exit [str ''Good bye!''] book
         else if command = str ''hello'' then Continue [str ''How can I help you?''] book
         else if command = str ''add'' then print_result (add_contact args book)
         else if command = str ''change'' then print_result (change_contact args book)
         else if command = str ''phone'' then print_result (phone args book)
         else if command = str ''all'' then print_result (show_all args book)
         else if command = str ''add-birthday'' then print_result (add_birthday args book)
         else if command = str ''show-birthday'' then print_result (show_birthday args book)
         else if command = str ''birthdays'' then print_result (birthdays today args book)
         else Continue [str ''Invalid command.''] book)"

text \<open>
  The loop on the lines that \<open>input\<close> will return, each with the day it is read on.
  \<open>Exited\<close> carries everything printed and the book that is saved; \<open>Crashed\<close> the
  exception that ended the process. When the lines run out \<open>input\<close> raises \<open>EOFError\<close>.
\<close>

datatype run = Exited "ustr list" AddressBook | Crashed exn "ustr list" AddressBook | EOF "ustr list" AddressBook

fun main_loop :: "(date \<times> ustr) list \<Rightarrow> AddressBook \<Rightarrow> ustr list \<Rightarrow> run" where
  "main_loop [] book out = EOF out book"
| "main_loop ((today, user_input) # rest) book out =
     (case main_step today user_input book of
        Continue printed book' \<Rightarrow> main_loop rest book' (out @ printed)
      | Exit printed book' \<Rightarrow> Exited (out @ printed) book'
      | Uncaught e book' \<Rightarrow> Crashed e out book')"

text \<open>\<open>main\<close>, on the book that \<open>load_data\<close> has returned.\<close>

definition main :: "(date \<times> ustr) list \<Rightarrow> AddressBook \<Rightarrow> run" where
  "main inputs book = main_loop inputs book [str ''Welcome to the assistant bot!'']"

text \<open>The commands the loop knows.\<close>

definition recognized :: "ustr list" where
  "recognized = map str [''exit'', ''close'', ''hello'', ''add'', ''change'', ''phone'', ''all'',
     ''add-birthday'', ''show-birthday'', ''birthdays'']"

text \<open>
  The specification's case variations of a name, in the narrow reading: two names of the
  same length that have, place by place, the same character or two characters of which
  one is the lower case of the other. A variation that changes the length, such as
  STRASSE for a name written with the sharp s, is none in this reading.
\<close>

definition case_variation :: "ustr \<Rightarrow> ustr \<Rightarrow> bool" where
  "case_variation a b =
     list_all2 (\<lambda>x y. x = y \<or> lower_full x = [y] \<or> [x] = lower_full y) a b"

section \<open>Phone construction\<close>

lemma isdecimal_isdigit_char: "isdecimal_char c \<Longrightarrow> isdigit_char c"
  by (simp add: isdigit_char_def)

text \<open>
  C5, as the specification states it, fails: ten superscript twos (U+00B2) are no decimal
  digits, and \<open>Phone\<close> accepts them.
\<close>

theorem Phone_superscript_counterexample:
  "Phone [0xB2, 0xB2, 0xB2, 0xB2, 0xB2, 0xB2, 0xB2, 0xB2, 0xB2, 0xB2]
     = Inr [0xB2, 0xB2, 0xB2, 0xB2, 0xB2, 0xB2, 0xB2, 0xB2, 0xB2, 0xB2]
   \<and> \<not> ten_decimal_digits [0xB2, 0xB2, 0xB2, 0xB2, 0xB2, 0xB2, 0xB2, 0xB2, 0xB2, 0xB2]"
proof -
  have a: "\<not> isdecimal_char 0xB2"
    by (simp add: isdecimal_char_def zero_of_def decimal_zeros_def)
  have b: "isdigit_char 0xB2"
    by (simp add: isdigit_char_def in_ranges_def other_digit_ranges_def)
  show ?thesis
    by (simp add: Phone_def isdigit_def ten_decimal_digits_def a b)
qed

text \<open>
  C5, amended: \<open>Phone\<close> succeeds exactly on the strings of ten characters that are all
  digits in the sense of \<open>str.isdigit\<close> (a decimal digit or another digit character such
  as a superscript digit), it stores the string unchanged, every string of ten decimal
  digits is among them, and on every other string it fails with the \<open>ValueError\<close> of the
  constructor.
\<close>

theorem Phone_succeeds_iff:
  "(Phone s = Inr s \<longleftrightarrow> length s = 10 \<and> list_all isdigit_char s)
   \<and> (\<forall>v. Phone s = Inr v \<longrightarrow> v = s)
   \<and> (ten_decimal_digits s \<longrightarrow> Phone s = Inr s)
   \<and> (\<not> (length s = 10 \<and> list_all isdigit_char s)
        \<longrightarrow> Phone s = Inl (ValueError msg_phone_10_digits))"
proof -
  have ne: "length s = 10 \<Longrightarrow> s \<noteq> []" by auto
  have dec: "list_all isdecimal_char s \<Longrightarrow> list_all isdigit_char s"
    by (induction s) (simp_all add: isdecimal_isdigit_char)
  show ?thesis
    using ne dec by (auto simp: Phone_def isdigit_def ten_decimal_digits_def)
qed

theorem Phone_succeeds_iff_witness:
  "Phone (str ''1234567890'') = Inr (str ''1234567890'')
   \<and> ten_decimal_digits (str ''1234567890'')
   \<and> Phone (str ''12345'') = Inl (ValueError msg_phone_10_digits)"
proof -
  have d: "ten_decimal_digits (str ''1234567890'')"
    by (simp add: ten_decimal_digits_def str_def isdecimal_char_def zero_of_def decimal_zeros_def)
  have n: "\<not> (length (str ''12345'') = 10 \<and> list_all isdigit_char (str ''12345''))"
    by (simp add: str_def)
  show ?thesis
    using Phone_succeeds_iff [of "str ''1234567890''"] Phone_succeeds_iff [of "str ''12345''"] d n
    by blast
qed

section \<open>Digits and padded numbers\<close>

lemma digit_char_plus: "digit_char n = 48 + n"
  by (simp add: digit_char_def ord_def)

lemma zero_of_bounds: "zero_of c = Some z \<Longrightarrow> z \<le> c \<and> c \<le> z + 9"
  by (auto simp: zero_of_def find_Some_iff)

lemma zero_of_digit_char: "n < 10 \<Longrightarrow> zero_of (digit_char n) = Some 48"
  by (simp add: zero_of_def decimal_zeros_def digit_char_plus)

lemma digit_val_digit_char: "n < 10 \<Longrightarrow> digit_val (digit_char n) = n"
  unfolding digit_val_def by (simp add: zero_of_digit_char) (simp add: digit_char_plus)

lemma isdecimal_digit_char: "n < 10 \<Longrightarrow> isdecimal_char (digit_char n)"
  by (simp add: isdecimal_char_def zero_of_digit_char)

lemma digit_val_less: "isdecimal_char c \<Longrightarrow> digit_val c < 10"
  using zero_of_bounds [of c] by (auto simp: isdecimal_char_def digit_val_def)

lemma digit_char_inj: "digit_char a = digit_char b \<longleftrightarrow> a = b"
  by (simp add: digit_char_plus)

lemma ascii_digit_is_digit_char: "ascii_digit c \<Longrightarrow> c - 48 < 10 \<and> c = digit_char (c - 48)"
  by (auto simp: ascii_digit_def ord_def digit_char_plus)

lemma ascii_digit_digit_char: "n < 10 \<Longrightarrow> ascii_digit (digit_char n)"
  by (simp add: ascii_digit_def ord_def digit_char_plus)

lemma to_ascii_digit_char: "n < 10 \<Longrightarrow> to_ascii_digit (digit_char n) = digit_char n"
  by (simp add: to_ascii_digit_def isdecimal_digit_char digit_val_digit_char)

lemma to_ascii_decimal: "isdecimal_char c \<Longrightarrow> to_ascii_digit c = digit_char (digit_val c)"
  by (simp add: to_ascii_digit_def)

lemma not_decimal_dot_space: "\<not> isdecimal_char (ord (CHR ''.''))" "\<not> isdecimal_char (ord (CHR '' ''))"
  by (simp_all add: isdecimal_char_def zero_of_def decimal_zeros_def ord_def)

lemma to_ascii_dot_space:
  "to_ascii_digit (ord (CHR ''.'')) = ord (CHR ''.'')"
  "to_ascii_digit (ord (CHR '' '')) = ord (CHR '' '')"
  by (simp_all add: to_ascii_digit_def not_decimal_dot_space)

lemma digit_char_numerals:
  "ord (CHR ''0'') = digit_char 0" "ord (CHR ''1'') = digit_char 1" "ord (CHR ''2'') = digit_char 2"
  "ord (CHR ''3'') = digit_char 3" "ord (CHR ''4'') = digit_char 4" "ord (CHR ''5'') = digit_char 5"
  "ord (CHR ''6'') = digit_char 6" "ord (CHR ''7'') = digit_char 7" "ord (CHR ''8'') = digit_char 8"
  "ord (CHR ''9'') = digit_char 9"
  by (simp_all add: digit_char_def ord_def)

lemma digit_char_not_dot: "digit_char n \<noteq> ord (CHR ''.'')" "ord (CHR ''.'') \<noteq> digit_char n"
  by (simp_all add: digit_char_plus ord_def)

lemma digit_char_not_space: "digit_char n \<noteq> ord (CHR '' '')" "ord (CHR '' '') \<noteq> digit_char n"
  by (simp_all add: digit_char_plus ord_def)

lemma str_nat_small: "n < 10 \<Longrightarrow> str_nat n = [digit_char n]"
  by (simp add: str_nat.simps [of n])

lemma str_nat_step: "10 \<le> n \<Longrightarrow> str_nat n = str_nat (n div 10) @ [digit_char (n mod 10)]"
  by (simp add: str_nat.simps [of n])

lemma str_nat_2: "10 \<le> n \<Longrightarrow> n < 100 \<Longrightarrow> str_nat n = [digit_char (n div 10), digit_char (n mod 10)]"
  by (simp add: str_nat_step str_nat_small)

lemma replicate_small:
  "replicate (Suc 0) c = [c]" "replicate 2 c = [c, c]" "replicate 3 c = [c, c, c]"
  by (simp_all add: numeral_2_eq_2 numeral_3_eq_3)

lemma zfill_len:
  "zfill 2 [a] = [ord (CHR ''0''), a]" "zfill 2 [a, b] = [a, b]"
  "zfill 4 [a] = [ord (CHR ''0''), ord (CHR ''0''), ord (CHR ''0''), a]"
  "zfill 4 [a, b] = [ord (CHR ''0''), ord (CHR ''0''), a, b]"
  "zfill 4 [a, b, c] = [ord (CHR ''0''), a, b, c]"
  "zfill 4 [a, b, c, d] = [a, b, c, d]"
  by (simp_all add: zfill_def replicate_small)

lemma zfill_2: "n < 100 \<Longrightarrow> zfill 2 (str_nat n) = [digit_char (n div 10), digit_char (n mod 10)]"
proof (cases "n < 10")
  case True
  then show ?thesis by (simp add: str_nat_small zfill_len digit_char_numerals)
next
  case False
  assume "n < 100"
  with False show ?thesis by (simp add: str_nat_2 zfill_len)
qed

lemma str_nat_3:
  assumes "100 \<le> n" "n < 1000"
  shows "str_nat n = [digit_char (n div 100), digit_char (n div 10 mod 10), digit_char (n mod 10)]"
proof -
  have a: "10 \<le> n div 10" "n div 10 < 100" using assms by auto
  have b: "n div 10 div 10 = n div 100" by (simp add: div_mult2_eq [symmetric])
  have "str_nat n = str_nat (n div 10) @ [digit_char (n mod 10)]"
    using assms by (simp add: str_nat_step)
  also have "str_nat (n div 10) = [digit_char (n div 10 div 10), digit_char (n div 10 mod 10)]"
    using a by (rule str_nat_2)
  finally show ?thesis by (simp add: b)
qed

lemma str_nat_4:
  assumes "1000 \<le> n" "n < 10000"
  shows "str_nat n = [digit_char (n div 1000), digit_char (n div 100 mod 10),
     digit_char (n div 10 mod 10), digit_char (n mod 10)]"
proof -
  have a: "100 \<le> n div 10" "n div 10 < 1000" using assms by auto
  have b: "n div 10 div 100 = n div 1000" "n div 10 div 10 = n div 100"
    by (simp_all add: div_mult2_eq [symmetric])
  have "str_nat n = str_nat (n div 10) @ [digit_char (n mod 10)]"
    using assms by (simp add: str_nat_step)
  also have "str_nat (n div 10) = [digit_char (n div 10 div 100),
     digit_char (n div 10 div 10 mod 10), digit_char (n div 10 mod 10)]"
    using a by (rule str_nat_3)
  finally show ?thesis by (simp add: b)
qed

lemma zfill_4:
  assumes "n < 10000"
  shows "zfill 4 (str_nat n) =
     [digit_char (n div 1000), digit_char (n div 100 mod 10), digit_char (n div 10 mod 10),
      digit_char (n mod 10)]"
proof -
  consider "n < 10" | "10 \<le> n" "n < 100" | "100 \<le> n" "n < 1000" | "1000 \<le> n"
    by linarith
  then show ?thesis
  proof cases
    case 1
    then show ?thesis by (simp add: str_nat_small zfill_len digit_char_numerals)
  next
    case 2
    then have "n div 100 = 0" "n div 1000 = 0" by simp_all
    with 2 show ?thesis by (simp add: str_nat_2 zfill_len digit_char_numerals)
  next
    case 3
    then have "n div 1000 = 0" by simp
    with 3 show ?thesis by (simp add: str_nat_3 zfill_len digit_char_numerals)
  next
    case 4
    with assms show ?thesis by (simp add: str_nat_4 zfill_len)
  qed
qed

lemma int_digits_2: "int_digits [a, b] = 10 * digit_val a + digit_val b"
  by (simp add: int_digits_def)

lemma int_digits_1: "int_digits [a] = digit_val a"
  by (simp add: int_digits_def)

lemma int_digits_4:
  "int_digits [a, b, c, d] = 1000 * digit_val a + 100 * digit_val b + 10 * digit_val c + digit_val d"
  by (simp add: int_digits_def)

lemma four_digits_value:
  "(n::nat) < 10000 \<Longrightarrow>
     1000 * (n div 1000) + 100 * (n div 100 mod 10) + 10 * (n div 10 mod 10) + n mod 10 = n"
proof -
  have a: "n div 100 = n div 10 div 10" "n div 1000 = n div 10 div 10 div 10"
    by (simp_all add: div_mult2_eq [symmetric])
  have 1: "n = 10 * (n div 10) + n mod 10" by simp
  have 2: "n div 10 = 10 * (n div 10 div 10) + n div 10 mod 10" by simp
  have 3: "n div 10 div 10 = 10 * (n div 10 div 10 div 10) + n div 10 div 10 mod 10" by simp
  assume "n < 10000"
  then have 4: "n div 10 div 10 div 10 < 10" by simp
  show ?thesis unfolding a using 1 2 3 by linarith
qed

lemma four_digits_split:
  fixes a b c d :: nat
  assumes "a < 10" "b < 10" "c < 10" "d < 10"
  shows "1000 * a + 100 * b + 10 * c + d < 10000"
    and "(1000 * a + 100 * b + 10 * c + d) div 1000 = a"
    and "(1000 * a + 100 * b + 10 * c + d) div 100 mod 10 = b"
    and "(1000 * a + 100 * b + 10 * c + d) div 10 mod 10 = c"
    and "(1000 * a + 100 * b + 10 * c + d) mod 10 = d"
proof -
  let ?n = "1000 * a + 100 * b + 10 * c + d"
  show "?n < 10000" using assms by linarith
  have "?n = a * 1000 + (100 * b + 10 * c + d)" by simp
  moreover have "100 * b + 10 * c + d < 1000" using assms by linarith
  ultimately show "?n div 1000 = a" by (metis div_mult_self3 div_less add.commute add_0 zero_neq_numeral)
  have e: "?n = (10 * a + b) * 100 + (10 * c + d)" by simp
  have "10 * c + d < 100" using assms by linarith
  then have "?n div 100 = 10 * a + b" unfolding e by simp
  then show "?n div 100 mod 10 = b" using assms by simp
  have f: "?n = (100 * a + 10 * b + c) * 10 + d" by simp
  have "?n div 10 = 100 * a + 10 * b + c" unfolding f using assms by simp
  then show "?n div 10 mod 10 = c" using assms by (simp add: mod_add_eq [symmetric] flip: mult.assoc)
  have "?n mod 10 = d mod 10" by (subst f) (rule mod_mult_self3)
  then show "?n mod 10 = d" using assms by simp
qed
lemma zfill_2_digits:
  "q < 10 \<Longrightarrow> r < 10 \<Longrightarrow> zfill 2 (str_nat (10 * q + r)) = [digit_char q, digit_char r]"
  by (simp add: zfill_2)

lemma zfill_2_int_digits:
  assumes "ascii_digit a" "ascii_digit b"
  shows "zfill 2 (str_nat (int_digits [a, b])) = [a, b]"
proof -
  obtain q r where qr: "q < 10" "r < 10" "a = digit_char q" "b = digit_char r"
    using assms ascii_digit_is_digit_char by blast
  then have "int_digits [a, b] = 10 * q + r"
    by (simp add: int_digits_2 digit_val_digit_char)
  with qr show ?thesis by (simp add: zfill_2)
qed

lemma zfill_4_digits:
  assumes "q < 10" "r < 10" "t < 10" "u < 10"
  shows "1000 * q + 100 * r + 10 * t + u < 10000
     \<and> zfill 4 (str_nat (1000 * q + 100 * r + 10 * t + u))
         = [digit_char q, digit_char r, digit_char t, digit_char u]"
  using four_digits_split [OF assms] by (simp add: zfill_4)

lemma zfill_4_int_digits:
  assumes "ascii_digit a" "ascii_digit b" "ascii_digit c" "ascii_digit d"
  shows "int_digits [a, b, c, d] < 10000 \<and> zfill 4 (str_nat (int_digits [a, b, c, d])) = [a, b, c, d]"
proof -
  obtain q r t u where q: "q < 10" "r < 10" "t < 10" "u < 10"
    "a = digit_char q" "b = digit_char r" "c = digit_char t" "d = digit_char u"
    using assms ascii_digit_is_digit_char by blast
  then have v: "int_digits [a, b, c, d] = 1000 * q + 100 * r + 10 * t + u"
    by (simp add: int_digits_4 digit_val_digit_char)
  from zfill_4_digits [OF q(1-4)] q v show ?thesis by simp
qed


lemma digit_val_ascii: "n < 10 \<Longrightarrow> digit_val (48 + n) = n"
  using digit_val_digit_char [of n] by (simp add: digit_char_plus)

lemma isdecimal_ascii: "n < 10 \<Longrightarrow> isdecimal_char (48 + n)"
  using isdecimal_digit_char [of n] by (simp add: digit_char_plus)

lemma to_ascii_ascii: "n < 10 \<Longrightarrow> to_ascii_digit (48 + n) = 48 + n"
  using to_ascii_digit_char [of n] by (simp add: digit_char_plus)

lemma ascii_digit_obtain: "ascii_digit c \<Longrightarrow> \<exists>n<10. c = 48 + n"
  using ascii_digit_is_digit_char [of c] by (auto simp: digit_char_plus)

lemma nonzero_digit_obtain: "nonzero_digit c \<Longrightarrow> \<exists>n. 1 \<le> n \<and> n < 10 \<and> c = 48 + n"
  by (auto simp: nonzero_digit_def ord_def intro!: exI [of _ "c - 48"])

lemma nonzero_digit_ascii: "n < 10 \<Longrightarrow> nonzero_digit (48 + n) \<longleftrightarrow> n \<noteq> 0"
  by (auto simp: nonzero_digit_def ord_def)

lemma digit_literals:
  "digit_val 48 = 0" "digit_val 49 = 1" "digit_val 50 = 2" "digit_val 51 = 3"
  "isdecimal_char 48" "isdecimal_char 49" "isdecimal_char 50" "isdecimal_char 51"
  "to_ascii_digit 48 = 48" "to_ascii_digit 49 = 49" "to_ascii_digit 50 = 50"
  "to_ascii_digit 51 = 51"
  using digit_val_ascii [of 0] digit_val_ascii [of 1] digit_val_ascii [of 2] digit_val_ascii [of 3]
    isdecimal_ascii [of 0] isdecimal_ascii [of 1] isdecimal_ascii [of 2] isdecimal_ascii [of 3]
    to_ascii_ascii [of 0] to_ascii_ascii [of 1] to_ascii_ascii [of 2] to_ascii_ascii [of 3]
  by simp_all

lemma not_decimal_literals: "\<not> isdecimal_char 46" "\<not> isdecimal_char 32"
  "to_ascii_digit 46 = 46" "to_ascii_digit 32 = 32"
  using not_decimal_dot_space to_ascii_dot_space by (simp_all add: ord_def)

section \<open>Parsing a birthday\<close>

lemma split_on_nonempty: "split_on c s \<noteq> []"
  by (induction s) (auto split: list.splits)

lemma split_on_no_sep: "c \<notin> set xs \<Longrightarrow> split_on c xs = [xs]"
  by (induction xs) auto

lemma split_on_append: "c \<notin> set xs \<Longrightarrow> split_on c (xs @ c # ys) = xs # split_on c ys"
  by (induction xs) (auto split: list.splits simp: split_on_nonempty)

lemma split_on_Cons:
  "split_on c s = w # ws \<Longrightarrow>
     c \<notin> set w \<and> (if ws = [] then s = w else \<exists>rest. s = w @ c # rest \<and> split_on c rest = ws)"
proof (induction s arbitrary: w ws)
  case Nil
  then show ?case by simp
next
  case (Cons x xs)
  show ?case
  proof (cases "x = c")
    case True
    with Cons.prems show ?thesis by (auto simp: split_on_nonempty)
  next
    case False
    then obtain w' ws' where s: "split_on c xs = w' # ws'"
      using split_on_nonempty [of c xs] by (cases "split_on c xs") auto
    with False Cons.prems have e: "w = x # w'" "ws = ws'" by auto
    from Cons.IH [OF s] False e show ?thesis by auto
  qed
qed

lemma split_on_three:
  "split_on c s = [a, b, d] \<longleftrightarrow>
     s = a @ c # b @ c # d \<and> c \<notin> set a \<and> c \<notin> set b \<and> c \<notin> set d"
proof
  assume h: "split_on c s = [a, b, d]"
  from split_on_Cons [OF h] obtain r1 where 1: "c \<notin> set a" "s = a @ c # r1" "split_on c r1 = [b, d]"
    by auto
  from split_on_Cons [OF 1(3)] obtain r2 where 2: "c \<notin> set b" "r1 = b @ c # r2" "split_on c r2 = [d]"
    by auto
  from split_on_Cons [OF 2(3)] have 3: "c \<notin> set d" "r2 = d" by auto
  from 1 2 3 show "s = a @ c # b @ c # d \<and> c \<notin> set a \<and> c \<notin> set b \<and> c \<notin> set d" by simp
next
  assume "s = a @ c # b @ c # d \<and> c \<notin> set a \<and> c \<notin> set b \<and> c \<notin> set d"
  then show "split_on c s = [a, b, d]"
    by (simp add: split_on_append split_on_no_sep)
qed

lemmas ascii_eval = ord_def digit_char_plus int_digits_1 int_digits_2 digit_val_ascii
  isdecimal_ascii to_ascii_ascii nonzero_digit_ascii digit_literals not_decimal_literals

lemma match_d_digits:
  assumes "q < 10" "r < 10"
  shows "match_d [48 + q, 48 + r] =
     (if 1 \<le> 10 * q + r \<and> 10 * q + r \<le> 31 then Some (10 * q + r) else None)"
  using assms by (auto simp: ascii_eval)

lemma match_m_digits:
  assumes "q < 10" "r < 10"
  shows "match_m [48 + q, 48 + r] =
     (if 1 \<le> 10 * q + r \<and> 10 * q + r \<le> 12 then Some (10 * q + r) else None)"
  using assms by (auto simp: ascii_eval)

lemma match_d_single: "r < 10 \<Longrightarrow> match_d [48 + r] = (if r \<noteq> 0 then Some r else None)"
  by (simp add: ascii_eval)

lemma match_m_single: "r < 10 \<Longrightarrow> match_m [48 + r] = (if r \<noteq> 0 then Some r else None)"
  by (simp add: ascii_eval)

lemma match_d_space: "r < 10 \<Longrightarrow> match_d [32, 48 + r] = (if r \<noteq> 0 then Some r else None)"
  by (simp add: ascii_eval)

lemma two_digits_value: "(n::nat) < 100 \<Longrightarrow> n div 10 < 10 \<and> n mod 10 < 10 \<and> 10 * (n div 10) + n mod 10 = n"
  by auto

lemma day_forms_cases:
  assumes "ds \<in> set (day_forms n)" "n < 100"
  shows "ds = [48 + n div 10, 48 + n mod 10] \<or> (n < 10 \<and> (ds = [48 + n] \<or> ds = [32, 48 + n]))"
  using assms by (auto simp: day_forms_def zfill_2 str_nat_small ascii_eval split: if_splits)

lemma month_forms_cases:
  assumes "ms \<in> set (month_forms n)" "n < 100"
  shows "ms = [48 + n div 10, 48 + n mod 10] \<or> (n < 10 \<and> ms = [48 + n])"
  using assms by (auto simp: month_forms_def zfill_2 str_nat_small ascii_eval split: if_splits)

lemma match_d_forms:
  assumes "1 \<le> n" "n \<le> 31" "ds \<in> set (day_forms n)"
  shows "match_d ds = Some n"
proof -
  from assms have n: "n < 100" "n \<noteq> 0" by auto
  from day_forms_cases [OF assms(3) n(1)] n assms two_digits_value [of n] show ?thesis
    by (auto simp: match_d_digits match_d_single match_d_space simp del: match_d.simps)
qed

lemma match_m_forms:
  assumes "1 \<le> n" "n \<le> 12" "ms \<in> set (month_forms n)"
  shows "match_m ms = Some n"
proof -
  from assms have n: "n < 100" "n \<noteq> 0" by auto
  from month_forms_cases [OF assms(3) n(1)] n assms two_digits_value [of n] show ?thesis
    by (auto simp: match_m_digits match_m_single simp del: match_m.simps)
qed

lemma match_d_ascii:
  assumes h: "match_d ds = Some n"
  shows "1 \<le> n \<and> n \<le> 31 \<and> map to_ascii_digit ds \<in> set (day_forms n)"
proof (cases ds rule: match_d.cases)
  case (1 a b)
  show ?thesis
  proof (cases "a = 32")
    case True
    with h 1 have nz: "nonzero_digit b" and n: "n = digit_val b"
      by (auto simp: ascii_eval split: if_splits)
    from nonzero_digit_obtain [OF nz] obtain k where
      k: "1 \<le> k" "k < 10" "b = 48 + k" by blast
    with n have "n = k" by (simp add: ascii_eval)
    with True 1 k show ?thesis
      by (simp add: day_forms_def str_nat_small ascii_eval)
  next
    case False
    with h 1 consider
        "a = 51" "b = 48 \<or> b = 49"
      | "a = 49 \<or> a = 50" "isdecimal_char b"
      | "a = 48" "nonzero_digit b"
      by (auto simp: ord_def split: if_splits)
    then obtain q r where qr: "q < 10" "r < 10" "a = 48 + q" "isdecimal_char b"
      "digit_val b = r" "1 \<le> 10 * q + r" "10 * q + r \<le> 31"
    proof cases
      case 1
      then show ?thesis
        using that [of 3 "digit_val b"] by (auto simp: ascii_eval)
    next
      case 2
      then show ?thesis
        using that [of 1 "digit_val b"] that [of 2 "digit_val b"] digit_val_less [of b] by auto
    next
      case 3
      from nonzero_digit_obtain [OF 3(2)] obtain k where
        k: "1 \<le> k" "k < 10" "b = 48 + k" by blast
      with 3 show ?thesis
        using that [of 0 k] by (simp add: ascii_eval)
    qed
    from h 1 False qr have n: "n = 10 * q + r"
      by (auto simp: ascii_eval split: if_splits)
    from qr have "map to_ascii_digit ds = [48 + q, 48 + r]"
      using 1 by (simp add: ascii_eval to_ascii_decimal)
    with qr n show ?thesis
      by (simp add: day_forms_def zfill_2_digits digit_char_plus)
  qed
next
  case (2 a)
  with h have nz: "nonzero_digit a" and n: "n = digit_val a"
    by (auto simp: int_digits_1 split: if_splits)
  from nonzero_digit_obtain [OF nz] obtain k where
    k: "1 \<le> k" "k < 10" "a = 48 + k" by blast
  with n have "n = k" by (simp add: ascii_eval)
  with 2 k show ?thesis
    by (simp add: day_forms_def str_nat_small ascii_eval)
qed (use h in simp_all)

lemma match_m_ascii:
  assumes h: "match_m ms = Some n"
  shows "1 \<le> n \<and> n \<le> 12 \<and> ms \<in> set (month_forms n) \<and> map to_ascii_digit ms = ms"
proof (cases ms rule: match_m.cases)
  case (1 a b)
  with h consider
      "a = 49" "b = 48 \<or> b = 49 \<or> b = 50"
    | "a = 48" "nonzero_digit b"
    by (auto simp: ord_def split: if_splits)
  then obtain q r where qr: "q < 10" "r < 10" "a = 48 + q" "b = 48 + r"
    "1 \<le> 10 * q + r" "10 * q + r \<le> 12"
  proof cases
    case 1
    then show ?thesis
      using that [of 1 0] that [of 1 1] that [of 1 2] by auto
  next
    case 2
    from nonzero_digit_obtain [OF 2(2)] obtain k where
      k: "1 \<le> k" "k < 10" "b = 48 + k" by blast
    with 2 show ?thesis using that [of 0 k] by simp
  qed
  from h 1 qr have n: "n = 10 * q + r"
    by (auto simp: match_m_digits simp del: match_m.simps split: if_splits)
  with qr 1 show ?thesis
    by (simp add: month_forms_def zfill_2_digits digit_char_plus ascii_eval)
next
  case (2 a)
  with h have nz: "nonzero_digit a" and n: "n = digit_val a"
    by (auto simp: int_digits_1 split: if_splits)
  from nonzero_digit_obtain [OF nz] obtain k where
    k: "1 \<le> k" "k < 10" "a = 48 + k" by blast
  with n have "n = k" by (simp add: ascii_eval)
  with 2 k show ?thesis
    by (simp add: month_forms_def str_nat_small ascii_eval)
qed (use h in simp_all)

lemma match_Y_ascii:
  assumes h: "match_Y ys = Some y"
  shows "y < 10000 \<and> map to_ascii_digit ys = zfill 4 (str_nat y)"
proof -
  from h have l: "length ys = 4" and d: "list_all isdecimal_char ys" and y: "y = int_digits ys"
    by (auto simp: match_Y_def split: if_splits)
  from l obtain a b c e where ys: "ys = [a, b, c, e]"
    by (auto simp: length_Suc_conv numeral_eq_Suc)
  from d ys have dec: "isdecimal_char a" "isdecimal_char b" "isdecimal_char c" "isdecimal_char e"
    by simp_all
  then have lt: "digit_val a < 10" "digit_val b < 10" "digit_val c < 10" "digit_val e < 10"
    by (simp_all add: digit_val_less)
  from y ys have v: "y = 1000 * digit_val a + 100 * digit_val b + 10 * digit_val c + digit_val e"
    by (simp add: int_digits_4)
  from dec ys have m: "map to_ascii_digit ys =
      [digit_char (digit_val a), digit_char (digit_val b), digit_char (digit_val c),
       digit_char (digit_val e)]"
    by (simp add: to_ascii_decimal)
  from zfill_4_digits [OF lt] v m show ?thesis by simp
qed

lemma match_Y_form: "y < 10000 \<Longrightarrow> match_Y (zfill 4 (str_nat y)) = Some y"
proof -
  assume h: "y < 10000"
  then have b: "y div 1000 < 10" by simp
  from h b four_digits_value [of y] show ?thesis
    by (simp add: zfill_4 match_Y_def isdecimal_digit_char int_digits_4 digit_val_digit_char)
qed

lemma zfill_2_no_dot: "n < 100 \<Longrightarrow> 46 \<notin> set (zfill 2 (str_nat n))"
  by (simp add: zfill_2 digit_char_plus)

lemma day_forms_no_dot:
  assumes "n < 100" "ds \<in> set (day_forms n)"
  shows "46 \<notin> set ds"
  using day_forms_cases [OF assms(2) assms(1)] by auto

lemma month_forms_no_dot:
  assumes "n < 100" "ms \<in> set (month_forms n)"
  shows "46 \<notin> set ms"
  using month_forms_cases [OF assms(2) assms(1)] by auto

lemma year_form_no_dot: "y < 10000 \<Longrightarrow> 46 \<notin> set (zfill 4 (str_nat y))"
  by (simp add: zfill_4 digit_char_plus)

lemma new_date_Inr: "new_date y m d = Inr dt \<longleftrightarrow> valid_date y m d \<and> dt = \<lparr>year = y, month = m, day = d\<rparr>"
  by (auto simp: new_date_def valid_date_def)

lemma days_in_month_le: "days_in_month y m \<le> 31"
  by (simp add: days_in_month_def)

lemma mem_accepted_forms:
  "s \<in> set (accepted_forms d) \<longleftrightarrow>
     (\<exists>ds ms. ds \<in> set (day_forms (day d)) \<and> ms \<in> set (month_forms (month d))
        \<and> s = ds @ 46 # ms @ 46 # zfill 4 (str_nat (year d)))"
  by (auto simp: accepted_forms_def str_def)

lemma strptime_accepts_forms:
  assumes v: "valid_date (year d) (month d) (day d)" and s: "s \<in> set (accepted_forms d)"
  shows "strptime_dmY s = Some d"
proof -
  from s obtain ds ms where f: "ds \<in> set (day_forms (day d))" "ms \<in> set (month_forms (month d))"
    and e: "s = ds @ 46 # ms @ 46 # zfill 4 (str_nat (year d))"
    by (auto simp: mem_accepted_forms)
  from v days_in_month_le [of "year d" "month d"]
  have b: "1 \<le> day d" "day d \<le> 31" "1 \<le> month d" "month d \<le> 12" "year d < 10000"
    by (auto simp: valid_date_def)
  from b f have nd: "46 \<notin> set ds" "46 \<notin> set ms" "46 \<notin> set (zfill 4 (str_nat (year d)))"
    using day_forms_no_dot [of "day d" ds] month_forms_no_dot [of "month d" ms]
      year_form_no_dot [of "year d"] by auto
  with e have sp: "split_on 46 s = [ds, ms, zfill 4 (str_nat (year d))]"
    by (simp add: split_on_three)
  from b f have m: "match_d ds = Some (day d)" "match_m ms = Some (month d)"
    "match_Y (zfill 4 (str_nat (year d))) = Some (year d)"
    by (simp_all add: match_d_forms match_m_forms match_Y_form)
  from v have "new_date (year d) (month d) (day d) = Inr d"
    by (simp add: new_date_Inr)
  with sp m show ?thesis
    by (simp add: strptime_dmY_def ord_def)
qed

lemma strptime_only_forms:
  assumes h: "strptime_dmY s = Some d"
  shows "valid_date (year d) (month d) (day d) \<and> map to_ascii_digit s \<in> set (accepted_forms d)"
proof -
  from h obtain ds ms ys where sp: "split_on 46 s = [ds, ms, ys]"
    by (auto simp: strptime_dmY_def ord_def split: list.splits)
  with h obtain dd m y where m: "match_d ds = Some dd" "match_m ms = Some m" "match_Y ys = Some y"
    and nd: "new_date y m dd = Inr d"
    by (auto simp: strptime_dmY_def ord_def split: option.splits sum.splits)
  from nd have v: "valid_date y m dd" and d: "d = \<lparr>year = y, month = m, day = dd\<rparr>"
    by (simp_all add: new_date_Inr)
  from sp have s: "s = ds @ 46 # ms @ 46 # ys" by (simp add: split_on_three)
  from m have f: "map to_ascii_digit ds \<in> set (day_forms dd)"
    "map to_ascii_digit ms \<in> set (month_forms m)" "map to_ascii_digit ys = zfill 4 (str_nat y)"
    using match_d_ascii [of ds dd] match_m_ascii [of ms m] match_Y_ascii [of ys y] by simp_all
  from s have "map to_ascii_digit s =
      map to_ascii_digit ds @ 46 # map to_ascii_digit ms @ 46 # map to_ascii_digit ys"
    by (simp add: not_decimal_literals)
  with v d f show ?thesis
    unfolding mem_accepted_forms by auto
qed

lemma Birthday_Inr: "Birthday s = Inr d \<longleftrightarrow> strptime_dmY s = Some d"
  by (simp add: Birthday_def split: option.splits)

lemma str_nat_zfill_4: "1000 \<le> y \<Longrightarrow> y < 10000 \<Longrightarrow> str_nat y = zfill 4 (str_nat y)"
  by (simp add: str_nat_4 zfill_len)

lemma strict_form_round_trip:
  assumes m: "matches_DD_MM_YYYY s" and r: "denotes_real_date s"
  shows "\<exists>d. strptime_dmY s = Some d \<and> (1000 \<le> year d \<longrightarrow> strftime_dmY d = s)"
proof -
  from m obtain a b c d e f g h where s: "s = [a, b, 46, c, d, 46, e, f, g, h]"
    and dec: "ascii_digit a" "ascii_digit b" "ascii_digit c" "ascii_digit d"
      "ascii_digit e" "ascii_digit f" "ascii_digit g" "ascii_digit h"
    by (auto simp: matches_DD_MM_YYYY_def ord_def)
  let ?dt = "\<lparr>year = int_digits [e, f, g, h], month = int_digits [c, d], day = int_digits [a, b]\<rparr>"
  from r s have v: "valid_date (year ?dt) (month ?dt) (day ?dt)"
    by (simp add: denotes_real_date_def)
  from dec have z: "zfill 2 (str_nat (int_digits [a, b])) = [a, b]"
    "zfill 2 (str_nat (int_digits [c, d])) = [c, d]"
    "zfill 4 (str_nat (int_digits [e, f, g, h])) = [e, f, g, h]"
    "int_digits [e, f, g, h] < 10000"
    by (simp_all add: zfill_2_int_digits zfill_4_int_digits)
  have fmt: "strftime_dmY ?dt = s" if "1000 \<le> year ?dt"
    using that z s str_nat_zfill_4 [of "int_digits [e, f, g, h]"]
    by (simp add: strftime_dmY_def str_def)
  have "[a, b] \<in> set (day_forms (day ?dt))" "[c, d] \<in> set (month_forms (month ?dt))"
    using z by (simp_all add: day_forms_def month_forms_def)
  moreover have "s = [a, b] @ 46 # [c, d] @ 46 # zfill 4 (str_nat (year ?dt))"
    using z s by simp
  ultimately have "s \<in> set (accepted_forms ?dt)"
    unfolding mem_accepted_forms by blast
  with v have "strptime_dmY s = Some ?dt" by (rule strptime_accepts_forms)
  with fmt show ?thesis by blast
qed

lemma str_nat_digit: "str_nat 0 = [48]" "str_nat 1 = [49]" "str_nat 2 = [50]" "str_nat 3 = [51]"
  "str_nat (Suc 0) = [49]"
  by (simp_all add: str_nat_small digit_char_plus)

lemma decimal_zeros_ascii: "list_all (\<lambda>z. z = 48 \<or> 128 \<le> z) decimal_zeros"
  by (simp add: decimal_zeros_def)

lemma zero_of_ascii: "c < 128 \<Longrightarrow> zero_of c = Some z \<Longrightarrow> z = 48"
  using decimal_zeros_ascii by (auto simp: zero_of_def find_Some_iff list_all_length)

lemma to_ascii_digit_low: "c < 128 \<Longrightarrow> to_ascii_digit c = c"
proof (cases "zero_of c")
  case None
  then show ?thesis by (simp add: to_ascii_digit_def isdecimal_char_def)
next
  case (Some z)
  assume "c < 128"
  then have z: "z = 48" using Some by (rule zero_of_ascii)
  from zero_of_bounds [OF Some] z have "48 \<le> c" by simp
  with Some z show ?thesis
    by (simp add: to_ascii_digit_def isdecimal_char_def digit_val_def digit_char_plus)
qed

lemma map_to_ascii_digit_low: "list_all (\<lambda>c. c < 128) s \<Longrightarrow> map to_ascii_digit s = s"
  by (induction s) (simp_all add: to_ascii_digit_low)

text \<open>
  C6, as the specification states it, fails twice. \<open>1.1.2020\<close> has a one-digit day and a
  one-digit month, and \<open>Birthday\<close> accepts it. \<open>01.01.0999\<close> has the format and is a real
  date, and formatting the stored date gives \<open>01.01.999\<close>.
\<close>

theorem Birthday_counterexample:
  "Birthday (str ''1.1.2020'') = Inr \<lparr>year = 2020, month = 1, day = 1\<rparr>
   \<and> \<not> matches_DD_MM_YYYY (str ''1.1.2020'')
   \<and> matches_DD_MM_YYYY (str ''01.01.0999'') \<and> denotes_real_date (str ''01.01.0999'')
   \<and> Birthday (str ''01.01.0999'') = Inr \<lparr>year = 999, month = 1, day = 1\<rparr>
   \<and> strftime_dmY \<lparr>year = 999, month = 1, day = 1\<rparr> = str ''01.01.999''
   \<and> str ''01.01.999'' \<noteq> str ''01.01.0999''"
proof -
  have v: "valid_date 2020 1 1" "valid_date 999 1 1"
    by (simp_all add: valid_date_def days_in_month_def)
  have f1: "str ''1.1.2020'' \<in> set (accepted_forms \<lparr>year = 2020, month = 1, day = 1\<rparr>)"
    unfolding mem_accepted_forms
    by (rule exI [of _ "[49]"], rule exI [of _ "[49]"])
      (simp add: day_forms_def month_forms_def str_nat_digit zfill_4 digit_char_plus str_def)
  have f2: "str ''01.01.0999'' \<in> set (accepted_forms \<lparr>year = 999, month = 1, day = 1\<rparr>)"
    unfolding mem_accepted_forms
    by (rule exI [of _ "[48, 49]"], rule exI [of _ "[48, 49]"])
      (simp add: day_forms_def month_forms_def str_nat_digit zfill_len zfill_4 digit_char_plus
        str_def ord_def)
  have b1: "Birthday (str ''1.1.2020'') = Inr \<lparr>year = 2020, month = 1, day = 1\<rparr>"
    using strptime_accepts_forms [OF _ f1] v by (simp add: Birthday_Inr)
  have b2: "Birthday (str ''01.01.0999'') = Inr \<lparr>year = 999, month = 1, day = 1\<rparr>"
    using strptime_accepts_forms [OF _ f2] v by (simp add: Birthday_Inr)
  have n: "\<not> matches_DD_MM_YYYY (str ''1.1.2020'')"
    by (simp add: matches_DD_MM_YYYY_def str_def)
  have m: "matches_DD_MM_YYYY (str ''01.01.0999'')"
    by (simp add: matches_DD_MM_YYYY_def str_def ascii_digit_def ord_def)
  have r: "denotes_real_date (str ''01.01.0999'')"
    by (simp add: denotes_real_date_def str_def int_digits_def digit_literals digit_val_ascii [of 9, simplified]
        valid_date_def days_in_month_def)
  have s: "strftime_dmY \<lparr>year = 999, month = 1, day = 1\<rparr> = str ''01.01.999''"
    by (simp add: strftime_dmY_def str_nat_digit zfill_len str_nat_3 digit_char_plus str_def ord_def)
  have d: "str ''01.01.999'' \<noteq> str ''01.01.0999''" by (simp add: str_def)
  from b1 n m r b2 s d show ?thesis by blast
qed

text \<open>
  C6, amended. \<open>Birthday\<close> succeeds with a date only when the date is a real calendar
  date and the string, with every decimal digit read as the digit 0 to 9 of its value, is
  one of the accepted forms of that date: day and month with two digits or, below ten, with
  one digit, the day also with a space and one digit, and the year with four digits. It
  succeeds on every accepted form of a real date, and on a string of ASCII characters on
  nothing else. When it does not succeed it fails with the \<open>ValueError\<close> of the
  constructor. For a string of the strict form DD.MM.YYYY that
  denotes a real date it succeeds, and formatting the stored date gives the string back
  when the year is at least 1000.
\<close>

theorem Birthday_accepts:
  "(Birthday s = Inr d \<longrightarrow>
      valid_date (year d) (month d) (day d) \<and> map to_ascii_digit s \<in> set (accepted_forms d))
   \<and> (valid_date (year d) (month d) (day d) \<and> s \<in> set (accepted_forms d)
        \<longrightarrow> Birthday s = Inr d)
   \<and> (list_all (\<lambda>c. c < 128) s
        \<longrightarrow> (Birthday s = Inr d
              \<longleftrightarrow> valid_date (year d) (month d) (day d) \<and> s \<in> set (accepted_forms d)))
   \<and> ((\<forall>d'. Birthday s \<noteq> Inr d')
        \<longrightarrow> Birthday s = Inl (ValueError (str ''Invalid date format. Use DD.MM.YYYY'')))
   \<and> (matches_DD_MM_YYYY s \<and> denotes_real_date s
        \<longrightarrow> (\<exists>d'. Birthday s = Inr d' \<and> (1000 \<le> year d' \<longrightarrow> strftime_dmY d' = s)))"
proof -
  have a: "Birthday s = Inr d \<longrightarrow>
      valid_date (year d) (month d) (day d) \<and> map to_ascii_digit s \<in> set (accepted_forms d)"
    using strptime_only_forms [of s d] by (simp add: Birthday_Inr)
  have b: "valid_date (year d) (month d) (day d) \<and> s \<in> set (accepted_forms d)
        \<longrightarrow> Birthday s = Inr d"
    using strptime_accepts_forms [of d s] by (simp add: Birthday_Inr)
  have c: "(\<forall>d'. Birthday s \<noteq> Inr d')
        \<longrightarrow> Birthday s = Inl (ValueError (str ''Invalid date format. Use DD.MM.YYYY''))"
    by (auto simp: Birthday_def split: option.splits)
  have e: "matches_DD_MM_YYYY s \<and> denotes_real_date s
        \<longrightarrow> (\<exists>d'. Birthday s = Inr d' \<and> (1000 \<le> year d' \<longrightarrow> strftime_dmY d' = s))"
    using strict_form_round_trip [of s] by (auto simp: Birthday_Inr)
  have i: "list_all (\<lambda>c. c < 128) s
        \<longrightarrow> (Birthday s = Inr d
              \<longleftrightarrow> valid_date (year d) (month d) (day d) \<and> s \<in> set (accepted_forms d))"
    using a b by (auto simp: map_to_ascii_digit_low)
  from a b i c e show ?thesis by blast
qed

theorem Birthday_accepts_witness:
  "Birthday (str ''15.06.1990'') = Inr \<lparr>year = 1990, month = 6, day = 15\<rparr>
   \<and> strftime_dmY \<lparr>year = 1990, month = 6, day = 15\<rparr> = str ''15.06.1990''
   \<and> Birthday [0x31, 0x665, 0x2E, 0x30, 0x31, 0x2E, 0x662, 0x660, 0x662, 0x660]
       = Inr \<lparr>year = 2020, month = 1, day = 15\<rparr>
   \<and> map to_ascii_digit [0x31, 0x665, 0x2E, 0x30, 0x31, 0x2E, 0x662, 0x660, 0x662, 0x660]
       = str ''15.01.2020''
   \<and> str ''15.01.2020'' \<in> set (accepted_forms \<lparr>year = 2020, month = 1, day = 15\<rparr>)
   \<and> Birthday (str ''31.04.2020'') = Inl (ValueError (str ''Invalid date format. Use DD.MM.YYYY''))"
proof -
  let ?d = "\<lparr>year = 1990, month = 6, day = 15\<rparr>"
  let ?u = "[0x31, 0x665, 0x2E, 0x30, 0x31, 0x2E, 0x662, 0x660, 0x662, 0x660] :: ustr"
  have z: "zero_of 0x665 = Some 0x660" "zero_of 0x662 = Some 0x660" "zero_of 0x660 = Some 0x660"
    "zero_of 0x2E = None"
    by (simp_all add: zero_of_def decimal_zeros_def)
  have dv: "digit_val 0x665 = 5" "digit_val 0x662 = 2" "digit_val 0x660 = 0"
    "isdecimal_char 0x665" "isdecimal_char 0x662" "isdecimal_char 0x660"
    by (simp_all add: digit_val_def isdecimal_char_def z)
  have m: "matches_DD_MM_YYYY (str ''15.06.1990'')"
    by (simp add: matches_DD_MM_YYYY_def str_def ascii_digit_def ord_def)
  have r: "denotes_real_date (str ''15.06.1990'')"
    using digit_val_ascii [of 0] digit_val_ascii [of 1] digit_val_ascii [of 5]
      digit_val_ascii [of 6] digit_val_ascii [of 9]
    by (simp add: denotes_real_date_def str_def int_digits_def valid_date_def days_in_month_def)
  have v: "valid_date (year ?d) (month ?d) (day ?d)"
    by (simp add: valid_date_def days_in_month_def)
  have f: "str ''15.06.1990'' \<in> set (accepted_forms ?d)"
    unfolding mem_accepted_forms
    by (rule exI [of _ "[49, 53]"], rule exI [of _ "[48, 54]"])
      (simp add: day_forms_def month_forms_def zfill_2 zfill_4 digit_char_plus str_def)
  from Birthday_accepts [of "str ''15.06.1990''" ?d] v f
  have b: "Birthday (str ''15.06.1990'') = Inr ?d" by blast
  from Birthday_accepts [of "str ''15.06.1990''" ?d] m r b
  have s: "strftime_dmY ?d = str ''15.06.1990''" by auto
  have bu: "Birthday ?u = Inr \<lparr>year = 2020, month = 1, day = 15\<rparr>"
    using digit_val_ascii [of 0] digit_val_ascii [of 1] isdecimal_ascii [of 0] isdecimal_ascii [of 1]
    by (simp add: Birthday_def strptime_dmY_def match_Y_def nonzero_digit_def ord_def
        int_digits_def dv new_date_def days_in_month_def)
  from Birthday_accepts [of ?u "\<lparr>year = 2020, month = 1, day = 15\<rparr>"] bu
  have mu: "map to_ascii_digit ?u \<in> set (accepted_forms \<lparr>year = 2020, month = 1, day = 15\<rparr>)"
    by blast
  have tu: "map to_ascii_digit ?u = str ''15.01.2020''"
    using to_ascii_ascii [of 0] to_ascii_ascii [of 1]
    by (simp add: to_ascii_decimal dv digit_char_plus not_decimal_literals str_def)
  have n: "Birthday (str ''31.04.2020'')
      = Inl (ValueError (str ''Invalid date format. Use DD.MM.YYYY''))"
    using digit_val_ascii [of 0] digit_val_ascii [of 1] digit_val_ascii [of 2]
      digit_val_ascii [of 3] digit_val_ascii [of 4]
      isdecimal_ascii [of 0] isdecimal_ascii [of 1] isdecimal_ascii [of 2]
    by (simp add: Birthday_def strptime_dmY_def match_Y_def nonzero_digit_def ord_def
        int_digits_def new_date_def days_in_month_def str_def)
  from b s bu tu mu n show ?thesis by simp
qed

section \<open>Days to the next birthday\<close>

lemmas date_eval = days_to_birthday_def replace_year_def new_date_def days_in_month_def
  is_leap_def date_less_def days_between_def toordinal_def days_before_year_def
  days_before_month_def upt_conv_Cons

lemma replace_year_ok:
  assumes "valid_date (year b) (month b) (day b)" "\<not> (month b = 2 \<and> day b = 29)"
    "1 \<le> y" "y \<le> 9999"
  shows "replace_year b y = Inr (b\<lparr>year := y\<rparr>)"
  using assms
  by (auto simp: replace_year_def new_date_def valid_date_def days_in_month_def
      split: if_splits)

text \<open>
  C8, as the specification states it, fails for a birthday on 29 February: on
  2024-03-01 the birthday 2020-02-29 is strictly earlier this year, and instead of
  counting to next year the method raises, because 2025 has no 29 February.
\<close>

theorem days_to_birthday_leap_counterexample:
  "replace_year \<lparr>year = 2020, month = 2, day = 29\<rparr> 2024 = Inr \<lparr>year = 2024, month = 2, day = 29\<rparr>
   \<and> date_less \<lparr>year = 2024, month = 2, day = 29\<rparr> \<lparr>year = 2024, month = 3, day = 1\<rparr>
   \<and> days_to_birthday \<lparr>year = 2024, month = 3, day = 1\<rparr>
        \<lparr>name = str ''Ann'', phones = [], birthday = Some \<lparr>year = 2020, month = 2, day = 29\<rparr>\<rparr>
       = Inl (ValueError (str ''day is out of range for month''))"
  by (simp add: date_eval)

text \<open>
  C8, amended: \<open>days_to_birthday\<close> returns \<open>None\<close> when no birthday is set; on 2024-01-01 it
  returns 9 for a birthday of 2020-01-10 and 0 for a birthday of 2020-01-01; and for every
  birthday that is not on 29 February it counts the days to this year's occurrence unless
  that lies strictly before today, and then to next year's. The same holds for a birthday
  on 29 February whenever that day exists in the years it is moved to.
\<close>

theorem days_to_birthday_cases:
  "(birthday r = None \<longrightarrow> days_to_birthday today r = Inr None)
   \<and> days_to_birthday \<lparr>year = 2024, month = 1, day = 1\<rparr>
        (r\<lparr>birthday := Some \<lparr>year = 2020, month = 1, day = 10\<rparr>\<rparr>) = Inr (Some 9)
   \<and> days_to_birthday \<lparr>year = 2024, month = 1, day = 1\<rparr>
        (r\<lparr>birthday := Some \<lparr>year = 2020, month = 1, day = 1\<rparr>\<rparr>) = Inr (Some 0)
   \<and> days_to_birthday \<lparr>year = 2024, month = 3, day = 1\<rparr>
        (r\<lparr>birthday := Some \<lparr>year = 2020, month = 2, day = 28\<rparr>\<rparr>) = Inr (Some 364)
   \<and> days_to_birthday \<lparr>year = 2023, month = 12, day = 25\<rparr>
        (r\<lparr>birthday := Some \<lparr>year = 1990, month = 1, day = 1\<rparr>\<rparr>) = Inr (Some 7)
   \<and> days_to_birthday \<lparr>year = 2024, month = 1, day = 31\<rparr>
        (r\<lparr>birthday := Some \<lparr>year = 2000, month = 3, day = 1\<rparr>\<rparr>) = Inr (Some 30)
   \<and> (\<forall>b. birthday r = Some b \<and> valid_date (year b) (month b) (day b)
           \<and> \<not> (month b = 2 \<and> day b = 29) \<and> 1 \<le> year today \<and> year today < 9999
         \<longrightarrow> days_to_birthday today r =
               Inr (Some (if date_less (b\<lparr>year := year today\<rparr>) today
                          then days_between (b\<lparr>year := year today + 1\<rparr>) today
                          else days_between (b\<lparr>year := year today\<rparr>) today)))
   \<and> (\<forall>b this_year next_year.
         birthday r = Some b \<and> replace_year b (year today) = Inr this_year
           \<and> replace_year b (year today + 1) = Inr next_year
         \<longrightarrow> days_to_birthday today r =
               Inr (Some (if date_less this_year today then days_between next_year today
                          else days_between this_year today)))"
proof -
  have a: "birthday r = None \<longrightarrow> days_to_birthday today r = Inr None"
    by (simp add: days_to_birthday_def)
  have b: "days_to_birthday \<lparr>year = 2024, month = 1, day = 1\<rparr>
        (r\<lparr>birthday := Some \<lparr>year = 2020, month = 1, day = 10\<rparr>\<rparr>) = Inr (Some 9)"
    by (simp add: date_eval)
  have c: "days_to_birthday \<lparr>year = 2024, month = 1, day = 1\<rparr>
        (r\<lparr>birthday := Some \<lparr>year = 2020, month = 1, day = 1\<rparr>\<rparr>) = Inr (Some 0)"
    by (simp add: date_eval)
  have c1: "days_to_birthday \<lparr>year = 2024, month = 3, day = 1\<rparr>
        (r\<lparr>birthday := Some \<lparr>year = 2020, month = 2, day = 28\<rparr>\<rparr>) = Inr (Some 364)"
    by (simp add: date_eval)
  have c2: "days_to_birthday \<lparr>year = 2023, month = 12, day = 25\<rparr>
        (r\<lparr>birthday := Some \<lparr>year = 1990, month = 1, day = 1\<rparr>\<rparr>) = Inr (Some 7)"
    by (simp add: date_eval)
  have c3: "days_to_birthday \<lparr>year = 2024, month = 1, day = 31\<rparr>
        (r\<lparr>birthday := Some \<lparr>year = 2000, month = 3, day = 1\<rparr>\<rparr>) = Inr (Some 30)"
    by (simp add: date_eval)
  have d: "\<forall>b this_year next_year.
         birthday r = Some b \<and> replace_year b (year today) = Inr this_year
           \<and> replace_year b (year today + 1) = Inr next_year
         \<longrightarrow> days_to_birthday today r =
               Inr (Some (if date_less this_year today then days_between next_year today
                          else days_between this_year today))"
    by (simp add: days_to_birthday_def)
  have e: "\<forall>b. birthday r = Some b \<and> valid_date (year b) (month b) (day b)
           \<and> \<not> (month b = 2 \<and> day b = 29) \<and> 1 \<le> year today \<and> year today < 9999
         \<longrightarrow> days_to_birthday today r =
               Inr (Some (if date_less (b\<lparr>year := year today\<rparr>) today
                          then days_between (b\<lparr>year := year today + 1\<rparr>) today
                          else days_between (b\<lparr>year := year today\<rparr>) today))"
  proof (intro allI impI)
    fix b
    assume h: "birthday r = Some b \<and> valid_date (year b) (month b) (day b)
           \<and> \<not> (month b = 2 \<and> day b = 29) \<and> 1 \<le> year today \<and> year today < 9999"
    then have "replace_year b (year today) = Inr (b\<lparr>year := year today\<rparr>)"
      "replace_year b (year today + 1) = Inr (b\<lparr>year := year today + 1\<rparr>)"
      by (simp_all add: replace_year_ok)
    with h d show "days_to_birthday today r =
               Inr (Some (if date_less (b\<lparr>year := year today\<rparr>) today
                          then days_between (b\<lparr>year := year today + 1\<rparr>) today
                          else days_between (b\<lparr>year := year today\<rparr>) today))"
      by blast
  qed
  from a b c c1 c2 c3 d e show ?thesis by blast
qed

theorem days_to_birthday_cases_witness:
  "days_to_birthday \<lparr>year = 2024, month = 6, day = 15\<rparr> (Record_init (str ''John'')) = Inr None
   \<and> date_less \<lparr>year = 2024, month = 3, day = 10\<rparr> \<lparr>year = 2024, month = 6, day = 15\<rparr>
   \<and> days_to_birthday \<lparr>year = 2024, month = 6, day = 15\<rparr>
        \<lparr>name = str ''John'', phones = [], birthday = Some \<lparr>year = 1990, month = 3, day = 10\<rparr>\<rparr>
       = Inr (Some 268)
   \<and> days_to_birthday \<lparr>year = 2024, month = 2, day = 10\<rparr>
        \<lparr>name = str ''Ann'', phones = [], birthday = Some \<lparr>year = 2020, month = 2, day = 29\<rparr>\<rparr>
       = Inr (Some 19)"
proof -
  let ?t = "\<lparr>year = 2024, month = 6, day = 15\<rparr>"
  let ?b = "\<lparr>year = 1990, month = 3, day = 10\<rparr>"
  let ?r = "\<lparr>name = str ''John'', phones = [], birthday = Some ?b\<rparr>"
  have n: "birthday (Record_init (str ''John'')) = None" by (simp add: Record_init_def)
  from days_to_birthday_cases [of "Record_init (str ''John'')" ?t] n
  have 1: "days_to_birthday ?t (Record_init (str ''John'')) = Inr None" by blast
  have h: "birthday ?r = Some ?b \<and> valid_date (year ?b) (month ?b) (day ?b)
      \<and> \<not> (month ?b = 2 \<and> day ?b = 29) \<and> 1 \<le> year ?t \<and> year ?t < 9999"
    by (simp add: valid_date_def days_in_month_def)
  have l: "date_less (?b\<lparr>year := year ?t\<rparr>) ?t" by (simp add: date_less_def)
  have v: "days_between (?b\<lparr>year := year ?t + 1\<rparr>) ?t = 268"
    by (simp add: days_between_def toordinal_def days_before_year_def days_before_month_def
        days_in_month_def is_leap_def upt_conv_Cons)
  from days_to_birthday_cases [of ?r ?t] h
  have "days_to_birthday ?t ?r =
      Inr (Some (if date_less (?b\<lparr>year := year ?t\<rparr>) ?t
                 then days_between (?b\<lparr>year := year ?t + 1\<rparr>) ?t
                 else days_between (?b\<lparr>year := year ?t\<rparr>) ?t))"
    by blast
  with l v have 2: "days_to_birthday ?t ?r = Inr (Some 268)" by simp
  let ?t' = "\<lparr>year = 2024, month = 2, day = 10\<rparr>"
  let ?b' = "\<lparr>year = 2020, month = 2, day = 29\<rparr>"
  let ?r' = "\<lparr>name = str ''Ann'', phones = [], birthday = Some ?b'\<rparr>"
  have h': "birthday ?r' = Some ?b' \<and> replace_year ?b' (year ?t') = Inr \<lparr>year = 2024, month = 2, day = 29\<rparr>"
    by (simp add: replace_year_def new_date_def days_in_month_def is_leap_def)
  have 3: "days_to_birthday ?t' ?r' = Inr (Some 19)"
    by (simp add: date_eval)
  from l have l': "date_less \<lparr>year = 2024, month = 3, day = 10\<rparr> ?t" by simp
  from 1 2 3 l' show ?thesis by blast
qed

section \<open>Looking up and adding contacts\<close>

lemma find_after_add: "lower n = lower (name r) \<Longrightarrow> find_record (add_record book r) n = Some r"
  by (simp add: find_record_def add_record_def update_conv')

lemma lower_runs_ascii:
  "list_all (\<lambda>(lo, hi, step, target). (lo = 65 \<and> hi = 90 \<and> step = 1 \<and> target = 97) \<or> 128 \<le> lo)
     lower_runs"
  by (simp add: lower_runs_def)

lemma find_run_ascii:
  assumes "list_all (\<lambda>(lo, hi, step, target). (lo = 65 \<and> hi = 90 \<and> step = 1 \<and> target = 97) \<or> 128 \<le> lo)
      (t :: (nat \<times> nat \<times> nat \<times> nat) list)"
    and "(c :: nat) < 128"
  shows "List.find (\<lambda>(lo, hi, step, target). lo \<le> c \<and> c \<le> hi \<and> (c - lo) mod step = 0) t
     = (if 65 \<le> c \<and> c \<le> 90 \<and> (65, 90, 1, 97) \<in> set t then Some (65, 90, 1, 97) else None)"
  using assms by (induction t) auto

lemma lower_full_ascii: "c < 128 \<Longrightarrow> lower_full c = [ascii_lower c]"
  using find_run_ascii [OF lower_runs_ascii, of c]
  by (auto simp: lower_full_def ascii_lower_def ord_def lower_runs_def)

lemma ascii_lower_idem: "ascii_lower (ascii_lower c) = ascii_lower c"
  by (simp add: ascii_lower_def ord_def)

lemma case_variation_ascii:
  assumes "case_variation a b" "list_all (\<lambda>c. c < 128) a" "list_all (\<lambda>c. c < 128) b"
  shows "lower a = lower b"
proof -
  from assms have "map ascii_lower a = map ascii_lower b"
    unfolding case_variation_def
  proof (induction a b rule: list_all2_induct)
    case Nil
    then show ?case by simp
  next
    case (Cons x xs y ys)
    then show ?case by (auto simp: lower_full_ascii ascii_lower_idem)
  qed
  with assms show ?thesis by (simp add: lower_def)
qed

text \<open>
  C7, as the specification states it, fails: the small letters alpha, sigma are a case
  variation of the capitals Alpha, Sigma, but a record named with the capitals is stored
  under alpha and the final sigma, which lower case gives a capital sigma at the end of a
  word, and \<open>find\<close> with the small letters looks under alpha, sigma and returns nothing.
  Nor does \<open>find\<close> with STRASSE, the upper case of the name written s, t, r, a, sharp s,
  e, return the record of that name: lower case keeps the sharp s.
\<close>

theorem find_sigma_counterexample:
  "case_variation [0x3B1, 0x3C3] [0x391, 0x3A3]
   \<and> find_record (add_record [] \<lparr>name = [0x391, 0x3A3], phones = [], birthday = None\<rparr>)
        [0x3B1, 0x3C3] = None
   \<and> find_record
        (add_record [] \<lparr>name = [0x73, 0x74, 0x72, 0x61, 0xDF, 0x65], phones = [],
           birthday = None\<rparr>)
        (str ''STRASSE'') = None"
proof -
  have s: "lower_full 0x73 = [0x73]" "lower_full 0x74 = [0x74]" "lower_full 0x72 = [0x72]"
    "lower_full 0x61 = [0x61]" "lower_full 0xDF = [0xDF]" "lower_full 0x65 = [0x65]"
    by (simp_all add: lower_full_def lower_runs_def)
  have ls: "lower [0x73, 0x74, 0x72, 0x61, 0xDF, 0x65] = [0x73, 0x74, 0x72, 0x61, 0xDF, 0x65]"
    by (simp add: lower_def s)
  have lS: "lower (str ''STRASSE'') = str ''strasse''"
    by (simp add: lower_def ascii_lower_def str_def ord_def)
  have t: "find_record
        (add_record [] \<lparr>name = [0x73, 0x74, 0x72, 0x61, 0xDF, 0x65], phones = [],
           birthday = None\<rparr>)
        (str ''STRASSE'') = None"
    by (simp add: find_record_def add_record_def ls lS) (simp add: str_def)
  have f: "lower_full 0x391 = [0x3B1]" "lower_full 0x3A3 = [0x3C3]"
    "lower_full 0x3B1 = [0x3B1]" "lower_full 0x3C3 = [0x3C3]"
    by (simp_all add: lower_full_def lower_runs_def)
  have i: "\<not> case_ignorable 0x391" "cased 0x391"
    by (simp_all add: case_ignorable_def cased_def in_ranges_def case_ignorable_ranges_def
        cased_ranges_def)
  have l: "lower [0x391, 0x3A3] = [0x3B1, 0x3C2]"
    by (simp add: lower_def f i final_sigma_def)
  have l': "lower [0x3B1, 0x3C3] = [0x3B1, 0x3C3]"
    by (simp add: lower_def f)
  have c: "case_variation [0x3B1, 0x3C3] [0x391, 0x3A3]"
    by (simp add: case_variation_def f)
  have g: "find_record (add_record [] \<lparr>name = [0x391, 0x3A3], phones = [], birthday = None\<rparr>)
        [0x3B1, 0x3C3] = None"
    by (simp add: find_record_def add_record_def l l')
  from c g t show ?thesis by simp
qed

text \<open>
  C7, amended: after \<open>add_record\<close>, \<open>find\<close> with any name that has the same lower case as
  the record's name returns that record, so with the name itself, and with every case
  variation of it when both are written in ASCII characters.
\<close>

theorem add_record_then_find:
  "(lower n = lower (name r) \<longrightarrow> find_record (add_record book r) n = Some r)
   \<and> find_record (add_record book r) (name r) = Some r
   \<and> (case_variation n (name r) \<and> list_all (\<lambda>c. c < 128) n \<and> list_all (\<lambda>c. c < 128) (name r)
        \<longrightarrow> find_record (add_record book r) n = Some r)"
  using case_variation_ascii [of n "name r"] by (auto simp: find_after_add)

lemma lower_John: "lower (str ''John'') = str ''john''" "lower (str ''jOHN'') = str ''john''"
  by (simp_all add: lower_def ascii_lower_def str_def ord_def)

theorem add_record_then_find_witness:
  "case_variation (str ''jOHN'') (str ''John'')
   \<and> find_record
        (add_record [] \<lparr>name = str ''John'', phones = [str ''1234567890''], birthday = None\<rparr>)
        (str ''jOHN'')
       = Some \<lparr>name = str ''John'', phones = [str ''1234567890''], birthday = None\<rparr>"
proof -
  have c: "case_variation (str ''jOHN'') (str ''John'')"
    by (simp add: case_variation_def str_def lower_full_ascii ascii_lower_def ord_def)
  have a: "list_all (\<lambda>c. c < 128) (str ''jOHN'')" "list_all (\<lambda>c. c < 128) (str ''John'')"
    by (simp_all add: str_def)
  let ?r = "\<lparr>name = str ''John'', phones = [str ''1234567890''], birthday = None\<rparr>"
  from c a have "case_variation (str ''jOHN'') (name ?r) \<and> list_all (\<lambda>c. c < 128) (str ''jOHN'')
      \<and> list_all (\<lambda>c. c < 128) (name ?r)" by simp
  with add_record_then_find [of "str ''jOHN''" ?r "[]"] c show ?thesis by blast
qed

lemma update_absent: "map_of al k = None \<Longrightarrow> AList.update k v al = al @ [(k, v)]"
  by (induction al) (auto split: if_splits)

lemma Phone_Inl: "Phone p = Inl e \<Longrightarrow> e = ValueError msg_phone_10_digits"
  by (auto simp: Phone_def split: if_splits)

lemma msg_phone_nonempty: "msg_phone_10_digits \<noteq> []"
  by (simp add: msg_phone_10_digits_def)

text \<open>
  C10: when the name is not in the book and the phone fails validation, the add handler
  leaves the book changed: a new record with that name and no phones has been appended
  before the failure is reported. The report is the message of the validation error for
  every phone but the empty string, which the handler does not pass to \<open>add_phone\<close>.
\<close>

theorem add_contact_not_atomic:
  assumes "find_record book n = None" and "Phone ph = Inl e"
  shows "snd (add_contact [n, ph] book) = book @ [(lower n, Record_init n)]
     \<and> snd (add_contact [n, ph] book) \<noteq> book
     \<and> find_record (snd (add_contact [n, ph] book)) n
          = Some \<lparr>name = n, phones = [], birthday = None\<rparr>
     \<and> (ph \<noteq> [] \<longrightarrow> fst (add_contact [n, ph] book) = Inr msg_phone_10_digits)
     \<and> (ph = [] \<longrightarrow> fst (add_contact [n, ph] book) = Inr msg_contact_added)"
proof -
  from assms(1) have u: "add_record book (Record_init n) = book @ [(lower n, Record_init n)]"
    by (simp add: add_record_def find_record_def update_absent Record_init_def)
  from assms(2) have e: "e = ValueError msg_phone_10_digits" by (rule Phone_Inl)
  have b: "snd (add_contact [n, ph] book) = book @ [(lower n, Record_init n)]"
    using assms u e
    by (simp add: add_contact_def add_contact_body_def add_phone_def input_error_def
        msg_phone_nonempty)
  have f: "find_record (book @ [(lower n, Record_init n)]) n = Some (Record_init n)"
    using assms(1) by (simp add: find_record_def map_add_def)
  have r: "ph \<noteq> [] \<longrightarrow> fst (add_contact [n, ph] book) = Inr msg_phone_10_digits"
    using assms e
    by (simp add: add_contact_def add_contact_body_def add_phone_def input_error_def
        msg_phone_nonempty)
  have r': "ph = [] \<longrightarrow> fst (add_contact [n, ph] book) = Inr msg_contact_added"
    using assms
    by (simp add: add_contact_def add_contact_body_def input_error_def)
  from b f r r' show ?thesis by (simp add: Record_init_def)
qed

theorem add_contact_not_atomic_witness:
  "find_record [] (str ''Bob'') = None \<and> Phone (str ''12'') = Inl (ValueError msg_phone_10_digits)
   \<and> add_contact [str ''Bob'', str ''12''] []
       = (Inr msg_phone_10_digits,
          [(str ''bob'', \<lparr>name = str ''Bob'', phones = [], birthday = None\<rparr>)])"
proof -
  have a: "find_record [] (str ''Bob'') = None" by (simp add: find_record_def)
  have p: "Phone (str ''12'') = Inl (ValueError msg_phone_10_digits)"
    by (simp add: Phone_def str_def)
  have l: "lower (str ''Bob'') = str ''bob''"
    by (simp add: lower_def ascii_lower_def str_def ord_def)
  have ne: "str ''12'' \<noteq> []" by (simp add: str_def)
  from add_contact_not_atomic [OF a p] l ne show ?thesis
    using a p by (simp add: prod_eq_iff Record_init_def)
qed

lemma change_contact_found:
  "find_record book n = Some r \<Longrightarrow>
     change_contact (n # old_phone # new_phone # rest) book = (Inl no_edit_phone, book)"
  by (simp add: change_contact_def change_contact_body_def input_error_def no_edit_phone_def)

text \<open>
  C1 fails on the code: \<open>change_contact\<close> calls \<open>record.edit_phone\<close>, and \<open>Record\<close> has no
  such method. On a book with John and the old number the handler raises
  \<open>AttributeError\<close>, which \<open>input_error\<close> does not catch, and the phone list is as before.
\<close>

theorem change_contact_raises:
  "change_contact [str ''John'', str ''1234567890'', str ''5551234567'']
     [(str ''john'', \<lparr>name = str ''John'', phones = [str ''1234567890''], birthday = None\<rparr>)]
   = (Inl no_edit_phone,
      [(str ''john'', \<lparr>name = str ''John'', phones = [str ''1234567890''], birthday = None\<rparr>)])"
  by (rule change_contact_found) (simp add: find_record_def lower_John)

text \<open>
  C4 fails on the code: \<open>add\<close> with only a name fails in the unpacking assignment,
  which raises \<open>ValueError\<close> and not \<open>IndexError\<close>, so the reply is the message of that
  \<open>ValueError\<close> and not the fixed text of the \<open>IndexError\<close> clause.
\<close>

theorem add_contact_missing_phone:
  "add_contact [str ''John''] []
     = (Inr (str ''not enough values to unpack (expected at least 2, got 1)''), [])
   \<and> fst (add_contact [str ''John''] []) \<noteq> Inr (str ''Enter the argument for the command'')"
  by (simp add: add_contact_def add_contact_body_def input_error_def unpack_error_def
      str_nat_digit str_def)

section \<open>Unknown commands and empty lines\<close>

lemma parse_input_blank: "list_all isspace_char line \<Longrightarrow> parse_input line = ([], [])"
proof -
  assume a: "list_all isspace_char line"
  have d: "dropWhile isspace_char line = []"
    using a by (simp add: list_all_iff)
  show ?thesis unfolding parse_input_def strip_def split_ws_def d by simp
qed

lemma main_step_unrecognized:
  assumes "fst (parse_input line) \<notin> set recognized"
  shows "main_step today line book = Continue [str ''Invalid command.''] book"
proof -
  obtain command args where p: "parse_input line = (command, args)"
    by (cases "parse_input line")
  from assms p have n: "command \<noteq> str ''exit''" "command \<noteq> str ''close''"
    "command \<noteq> str ''hello''" "command \<noteq> str ''add''" "command \<noteq> str ''change''"
    "command \<noteq> str ''phone''" "command \<noteq> str ''all''" "command \<noteq> str ''add-birthday''"
    "command \<noteq> str ''show-birthday''" "command \<noteq> str ''birthdays''"
    unfolding recognized_def by auto
  show ?thesis unfolding main_step_def p using n by (simp only: prod.case Let_def if_False simp_thms)
qed

text \<open>
  C3, as the specification states it, fails on an empty line: the loop prints the
  "invalid command" message for it as for any unknown command.
\<close>

theorem blank_line_counterexample:
  "main_step \<lparr>year = 2024, month = 1, day = 1\<rparr> (str '''') [] = Continue [str ''Invalid command.''] []
   \<and> main_step \<lparr>year = 2024, month = 1, day = 1\<rparr> (str ''   '') []
       = Continue [str ''Invalid command.''] []"
proof -
  have s: "list_all isspace_char (str '''')" "list_all isspace_char (str ''   '')"
    by (simp_all add: str_def isspace_char_def in_ranges_def space_ranges_def)
  have r: "[] \<notin> set recognized" by (simp add: recognized_def str_def)
  from s r show ?thesis by (simp add: parse_input_blank main_step_unrecognized)
qed

text \<open>
  C3, amended: for every input line whose command (the first token in lower case, or
  the empty string when there is no token) is not a recognized one, and so for every
  empty or all-whitespace line, the turn prints "Invalid command.", leaves the book
  alone, and the loop goes on with the next line.
\<close>

theorem unrecognized_or_blank_line:
  "(fst (parse_input line) \<notin> set recognized \<or> list_all isspace_char line)
   \<longrightarrow> main_step today line book = Continue [str ''Invalid command.''] book
       \<and> main_loop ((today, line) # rest) book out
           = main_loop rest book (out @ [str ''Invalid command.''])"
proof
  assume "fst (parse_input line) \<notin> set recognized \<or> list_all isspace_char line"
  then have "fst (parse_input line) \<notin> set recognized"
    using parse_input_blank [of line] by (auto simp: recognized_def str_def)
  then have "main_step today line book = Continue [str ''Invalid command.''] book"
    by (rule main_step_unrecognized)
  then show "main_step today line book = Continue [str ''Invalid command.''] book
       \<and> main_loop ((today, line) # rest) book out
           = main_loop rest book (out @ [str ''Invalid command.''])"
    by simp
qed

theorem unrecognized_or_blank_line_witness:
  "fst (parse_input (str ''foo bar'')) \<notin> set recognized \<and> list_all isspace_char (str ''  '')
   \<and> main_step \<lparr>year = 2024, month = 1, day = 1\<rparr> (str ''foo bar'') []
       = Continue [str ''Invalid command.''] []
   \<and> main_step \<lparr>year = 2024, month = 1, day = 1\<rparr> (str ''  '') []
       = Continue [str ''Invalid command.''] []"
proof -
  have p: "parse_input (str ''foo bar'') = (str ''foo'', [str ''bar''])"
    by (simp add: parse_input_def strip_def split_ws_def str_def isspace_char_def in_ranges_def
        space_ranges_def lower_def ascii_lower_def ord_def)
  have a: "fst (parse_input (str ''foo bar'')) \<notin> set recognized"
    unfolding p by (simp add: recognized_def str_def)
  have b: "list_all isspace_char (str ''  '')"
    by (simp add: str_def isspace_char_def in_ranges_def space_ranges_def)
  from unrecognized_or_blank_line [of "str ''foo bar''"]
    unrecognized_or_blank_line [of "str ''  ''"] a b
  show ?thesis by blast
qed

section \<open>What the command loop catches\<close>

lemma input_error_Inr: "input_error (Inr s, b) = (Inr s, b)"
  by (simp add: input_error_def)

lemma input_error_caught:
  "e = KeyError \<or> e = IndexError \<or> (\<exists>m. e = ValueError m) \<Longrightarrow>
     \<exists>s. input_error (Inl e, b) = (Inr s, b)"
  by (auto simp: input_error_def)

lemma input_error_returns:
  assumes "\<And>e. fst r = Inl e \<Longrightarrow> e = KeyError \<or> e = IndexError \<or> (\<exists>m. e = ValueError m)"
  shows "\<exists>s. input_error r = (Inr s, snd r)"
proof (cases r)
  case (Pair x b)
  show ?thesis
  proof (cases x)
    case (Inl e)
    with Pair assms [of e] show ?thesis using input_error_caught [of e b] by auto
  next
    case (Inr s)
    with Pair show ?thesis by (simp add: input_error_Inr)
  qed
qed

lemma new_date_exn: "new_date y m d = Inl e \<Longrightarrow> \<exists>msg. e = ValueError msg"
  by (auto simp: new_date_def split: if_splits)

lemma upcoming_loop_exn: "upcoming_loop today days rs acc = Inl e \<Longrightarrow> \<exists>msg. e = ValueError msg"
proof (induction rs arbitrary: acc)
  case Nil
  then show ?case by simp
next
  case (Cons r rs)
  then show ?case
    by (auto simp: replace_year_def Let_def dest: new_date_exn
        split: option.splits sum.splits if_splits)
qed

lemma add_contact_returns: "\<exists>s b. add_contact args book = (Inr s, b)"
proof -
  have "\<And>e. fst (add_contact_body args book) = Inl e \<Longrightarrow> \<exists>m. e = ValueError m"
    by (auto simp: add_contact_body_def unpack_error_def add_phone_def Phone_def Let_def
        split: list.splits option.splits sum.splits if_splits)
  then show ?thesis
    unfolding add_contact_def using input_error_returns [of "add_contact_body args book"] by blast
qed

lemma phone_returns: "\<exists>s b. phone args book = (Inr s, b)"
proof -
  have "\<And>e. fst (phone_body args book) = Inl e \<Longrightarrow> e = KeyError \<or> (\<exists>m. e = ValueError m)"
    by (auto simp: phone_body_def unpack_error_def split: list.splits option.splits if_splits)
  then show ?thesis
    unfolding phone_def using input_error_returns [of "phone_body args book"] by blast
qed

lemma show_all_returns: "\<exists>s b. show_all args book = (Inr s, b)"
  by (simp add: show_all_def show_all_body_def input_error_def)

lemma add_birthday_returns: "\<exists>s b. add_birthday args book = (Inr s, b)"
proof -
  have "\<And>e. fst (add_birthday_body args book) = Inl e \<Longrightarrow> e = KeyError \<or> (\<exists>m. e = ValueError m)"
    by (auto simp: add_birthday_body_def unpack_error_def Record_add_birthday_def Birthday_def
        split: list.splits option.splits sum.splits if_splits)
  then show ?thesis
    unfolding add_birthday_def using input_error_returns [of "add_birthday_body args book"] by blast
qed

lemma show_birthday_returns: "\<exists>s b. show_birthday args book = (Inr s, b)"
proof -
  have "\<And>e. fst (show_birthday_body args book) = Inl e \<Longrightarrow> e = KeyError \<or> (\<exists>m. e = ValueError m)"
    by (auto simp: show_birthday_body_def unpack_error_def
        split: list.splits option.splits if_splits)
  then show ?thesis
    unfolding show_birthday_def using input_error_returns [of "show_birthday_body args book"]
    by blast
qed

lemma birthdays_returns: "\<exists>s b. birthdays today args book = (Inr s, b)"
proof -
  have "\<And>e. fst (birthdays_body today args book) = Inl e \<Longrightarrow> \<exists>m. e = ValueError m"
    by (auto simp: birthdays_body_def get_upcoming_birthdays_def dest: upcoming_loop_exn
        split: sum.splits if_splits)
  then show ?thesis
    unfolding birthdays_def using input_error_returns [of "birthdays_body today args book"]
    by blast
qed

lemma change_contact_cases:
  "(\<exists>s. change_contact args book = (Inr s, book))
   \<or> (change_contact args book = (Inl no_edit_phone, book)
        \<and> (\<exists>n old_phone new_phone rest r. args = n # old_phone # new_phone # rest
              \<and> find_record book n = Some r))"
  by (auto simp: change_contact_def change_contact_body_def input_error_def unpack_error_def
      no_edit_phone_def split: list.splits option.splits)

lemma print_result_Inr: "print_result (Inr s, b) = Continue [s] b"
  by (simp add: print_result_def)

lemma main_step_uncaught:
  assumes "main_step today line book = Uncaught e b"
  shows "e = no_edit_phone \<and> b = book \<and> fst (parse_input line) = str ''change''
     \<and> (\<exists>n old_phone new_phone rest r. snd (parse_input line) = n # old_phone # new_phone # rest
           \<and> find_record book n = Some r)"
proof -
  obtain command args where p: "parse_input line = (command, args)"
    by (cases "parse_input line")
  have other: "print_result r \<noteq> Uncaught e b" if "\<exists>s b'. r = (Inr s, b')" for r
    using that by (auto simp: print_result_Inr)
  have ch: "command = str ''change''"
  proof (rule ccontr)
    assume n: "command \<noteq> str ''change''"
    from assms show False
      unfolding main_step_def p prod.case Let_def
      using n other [OF add_contact_returns [of args book]] other [OF phone_returns [of args book]]
        other [OF show_all_returns [of args book]] other [OF add_birthday_returns [of args book]]
        other [OF show_birthday_returns [of args book]]
        other [OF birthdays_returns [of today args book]]
      by (simp split: if_splits)
  qed
  from assms ch have u: "print_result (change_contact args book) = Uncaught e b"
    unfolding main_step_def p prod.case Let_def by (simp add: str_def)
  from change_contact_cases [of args book] u p ch show ?thesis
    by (auto simp: print_result_def)
qed

text \<open>
  C2 fails on the code: \<open>change\<close> on an existing contact raises the
  \<open>AttributeError\<close> above, which passes \<open>input_error\<close> and leaves \<open>main\<close>: the process
  ends on a command that is neither \<open>exit\<close> nor \<open>close\<close>.
\<close>

theorem change_existing_contact_ends_process:
  "main_step \<lparr>year = 2024, month = 1, day = 1\<rparr> (str ''change John 1234567890 5551234567'')
     [(str ''john'', \<lparr>name = str ''John'', phones = [str ''1234567890''], birthday = None\<rparr>)]
   = Uncaught no_edit_phone
       [(str ''john'', \<lparr>name = str ''John'', phones = [str ''1234567890''], birthday = None\<rparr>)]
   \<and> main [(\<lparr>year = 2024, month = 1, day = 1\<rparr>, str ''add John 1234567890''),
            (\<lparr>year = 2024, month = 1, day = 1\<rparr>, str ''change John 1234567890 5551234567''),
            (\<lparr>year = 2024, month = 1, day = 1\<rparr>, str ''hello'')] []
     = Crashed no_edit_phone [str ''Welcome to the assistant bot!'', msg_contact_added]
         [(str ''john'', \<lparr>name = str ''John'', phones = [str ''1234567890''], birthday = None\<rparr>)]"
proof -
  let ?t = "\<lparr>year = 2024, month = 1, day = 1\<rparr>"
  let ?r = "\<lparr>name = str ''John'', phones = [str ''1234567890''], birthday = None\<rparr>"
  have p1: "parse_input (str ''add John 1234567890'')
      = (str ''add'', [str ''John'', str ''1234567890''])"
    by (simp add: parse_input_def strip_def split_ws_def str_def isspace_char_def in_ranges_def
        space_ranges_def lower_def ascii_lower_def ord_def)
  have p2: "parse_input (str ''change John 1234567890 5551234567'')
      = (str ''change'', [str ''John'', str ''1234567890'', str ''5551234567''])"
    by (simp add: parse_input_def strip_def split_ws_def str_def isspace_char_def in_ranges_def
        space_ranges_def lower_def ascii_lower_def ord_def)
  have l: "lower (str ''John'') = str ''john''"
    by (simp add: lower_def ascii_lower_def str_def ord_def)
  have ph: "Phone (str ''1234567890'') = Inr (str ''1234567890'')"
    by (simp add: Phone_def isdigit_def isdigit_char_def isdecimal_char_def zero_of_def
        decimal_zeros_def str_def)
  have ne: "str ''1234567890'' \<noteq> []" by (simp add: str_def)
  have c: "str ''add'' \<noteq> str ''exit''" "str ''add'' \<noteq> str ''close''" "str ''add'' \<noteq> str ''hello''"
    "str ''change'' \<noteq> str ''exit''" "str ''change'' \<noteq> str ''close''"
    "str ''change'' \<noteq> str ''hello''" "str ''change'' \<noteq> str ''add''"
    by (simp_all add: str_def)
  have a: "add_contact [str ''John'', str ''1234567890''] [] = (Inr msg_contact_added, [(str ''john'', ?r)])"
    using ne
    by (simp add: add_contact_def add_contact_body_def input_error_def find_record_def
        add_record_def Record_init_def add_phone_def ph l)
  have s1: "main_step ?t (str ''add John 1234567890'') []
      = Continue [msg_contact_added] [(str ''john'', ?r)]"
    unfolding main_step_def p1 by (simp add: c a print_result_def)
  have f: "find_record [(str ''john'', ?r)] (str ''John'') = Some ?r"
    by (simp add: find_record_def l)
  have s2: "main_step ?t (str ''change John 1234567890 5551234567'') [(str ''john'', ?r)]
      = Uncaught no_edit_phone [(str ''john'', ?r)]"
    unfolding main_step_def p2 by (simp add: c change_contact_found [OF f] print_result_def)
  have m: "main [(?t, str ''add John 1234567890''),
      (?t, str ''change John 1234567890 5551234567''), (?t, str ''hello'')] []
      = Crashed no_edit_phone [str ''Welcome to the assistant bot!'', msg_contact_added]
          [(str ''john'', ?r)]"
    by (simp only: main_def main_loop.simps s1 s2 turn.case append.simps)
  from s2 m show ?thesis by (rule conjI)
qed

section \<open>Upcoming birthdays\<close>

lemma upcoming_loop_filter:
  assumes "\<forall>r \<in> set rs. \<exists>v. days_to_birthday today r = Inr v"
  shows "upcoming_loop today days rs acc =
     Inr (acc @ List.map_filter
        (\<lambda>r. case days_to_birthday today r of
               Inr (Some delta) \<Rightarrow> if delta \<le> days then Some (name r, delta) else None
             | _ \<Rightarrow> None) rs)"
  using assms
proof (induction rs arbitrary: acc)
  case Nil
  then show ?case by (simp add: map_filter_simps)
next
  case (Cons r rs)
  from Cons.prems obtain v where v: "days_to_birthday today r = Inr v" by auto
  from Cons.prems have rest: "\<forall>r \<in> set rs. \<exists>v. days_to_birthday today r = Inr v" by simp
  note IH = Cons.IH [OF rest]
  show ?case
  proof (cases "birthday r")
    case None
    then show ?thesis by (simp add: IH days_to_birthday_def map_filter_simps)
  next
    case (Some bday)
    with v obtain nb where nb: "replace_year bday (year today) = Inr nb"
      by (auto simp: days_to_birthday_def split: sum.splits)
    show ?thesis
    proof (cases "date_less nb today")
      case True
      with v Some nb obtain nb' where nb': "replace_year bday (year today + 1) = Inr nb'"
        by (auto simp: days_to_birthday_def split: sum.splits)
      from Some nb True nb' show ?thesis
        by (simp add: IH days_to_birthday_def map_filter_simps Let_def)
    next
      case False
      with Some nb show ?thesis
        by (simp add: IH days_to_birthday_def map_filter_simps Let_def)
    qed
  qed
qed

lemma mem_map_filter: "y \<in> set (List.map_filter f xs) \<longleftrightarrow> (\<exists>x \<in> set xs. f x = Some y)"
  by (induction xs) (auto split: option.splits)

text \<open>
  C9, as the specification states it, fails on a book with a birthday on 29 February in
  a year that is not a leap year: \<open>replace\<close> raises and no list is returned.
\<close>

theorem leap_day_counterexample:
  "get_upcoming_birthdays \<lparr>year = 2023, month = 3, day = 1\<rparr> 7
     [(str ''ann'', \<lparr>name = str ''Ann'', phones = [], birthday = Some \<lparr>year = 2020, month = 2, day = 29\<rparr>\<rparr>)]
   = Inl (ValueError (str ''day is out of range for month''))"
  by (simp add: get_upcoming_birthdays_def replace_year_def new_date_def days_in_month_def
      is_leap_def)

text \<open>
  C9, amended: for every address book in which the next birthday of every record can be
  computed (no record makes \<open>days_to_birthday\<close> raise), \<open>get_upcoming_birthdays\<close> with
  window 7 returns, in the order of the book, the pair of name and days remaining of
  exactly the records with a birthday and at most 7 days remaining: a record 7 days or
  0 days away is in the list, one 8 days away is not.
\<close>

theorem upcoming_birthdays_window:
  assumes "\<forall>r \<in> set (map snd book). \<exists>v. days_to_birthday today r = Inr v"
  shows "get_upcoming_birthdays today 7 book =
     Inr (List.map_filter
        (\<lambda>r. case days_to_birthday today r of
               Inr (Some delta) \<Rightarrow> if delta \<le> 7 then Some (name r, delta) else None
             | _ \<Rightarrow> None) (map snd book))
   \<and> (\<forall>res. get_upcoming_birthdays today 7 book = Inr res \<longrightarrow>
        (\<forall>r \<in> set (map snd book). \<forall>delta. days_to_birthday today r = Inr (Some delta) \<longrightarrow>
           ((name r, delta) \<in> set res \<longleftrightarrow> delta \<le> 7)))"
proof -
  let ?f = "\<lambda>r. case days_to_birthday today r of
               Inr (Some delta) \<Rightarrow> if delta \<le> 7 then Some (name r, delta) else None
             | _ \<Rightarrow> None"
  have eq: "get_upcoming_birthdays today 7 book = Inr (List.map_filter ?f (map snd book))"
    unfolding get_upcoming_birthdays_def using upcoming_loop_filter [OF assms, of 7 "[]"] by simp
  have mem: "(n, d) \<in> set (List.map_filter ?f (map snd book)) \<longleftrightarrow>
      (\<exists>r \<in> set (map snd book). ?f r = Some (n, d))" for n d
    by (rule mem_map_filter)
  have "(name r, delta) \<in> set (List.map_filter ?f (map snd book)) \<longleftrightarrow> delta \<le> 7"
    if r: "r \<in> set (map snd book)" and d: "days_to_birthday today r = Inr (Some delta)" for r delta
  proof
    assume "(name r, delta) \<in> set (List.map_filter ?f (map snd book))"
    then obtain r' where "r' \<in> set (map snd book)" "?f r' = Some (name r, delta)"
      unfolding mem by blast
    then show "delta \<le> 7" by (auto split: sum.splits option.splits if_splits)
  next
    assume "delta \<le> 7"
    with d have "?f r = Some (name r, delta)" by simp
    with r show "(name r, delta) \<in> set (List.map_filter ?f (map snd book))"
      unfolding mem by blast
  qed
  with eq show ?thesis by simp
qed

theorem upcoming_birthdays_window_witness:
  "days_to_birthday \<lparr>year = 2024, month = 1, day = 1\<rparr>
     \<lparr>name = str ''Ann'', phones = [], birthday = Some \<lparr>year = 1990, month = 1, day = 8\<rparr>\<rparr>
     = Inr (Some 7)
   \<and> days_to_birthday \<lparr>year = 2024, month = 1, day = 1\<rparr>
     \<lparr>name = str ''Bob'', phones = [], birthday = Some \<lparr>year = 1991, month = 1, day = 9\<rparr>\<rparr>
     = Inr (Some 8)
   \<and> days_to_birthday \<lparr>year = 2024, month = 1, day = 1\<rparr>
     \<lparr>name = str ''Cy'', phones = [], birthday = Some \<lparr>year = 1992, month = 1, day = 1\<rparr>\<rparr>
     = Inr (Some 0)
   \<and> get_upcoming_birthdays \<lparr>year = 2024, month = 1, day = 1\<rparr> 7
       [(str ''ann'', \<lparr>name = str ''Ann'', phones = [], birthday = Some \<lparr>year = 1990, month = 1, day = 8\<rparr>\<rparr>),
        (str ''bob'', \<lparr>name = str ''Bob'', phones = [], birthday = Some \<lparr>year = 1991, month = 1, day = 9\<rparr>\<rparr>),
        (str ''cy'', \<lparr>name = str ''Cy'', phones = [], birthday = Some \<lparr>year = 1992, month = 1, day = 1\<rparr>\<rparr>),
        (str ''dee'', \<lparr>name = str ''Dee'', phones = [], birthday = None\<rparr>)]
     = Inr [(str ''Ann'', 7), (str ''Cy'', 0)]"
proof -
  let ?t = "\<lparr>year = 2024, month = 1, day = 1\<rparr>"
  let ?a = "\<lparr>name = str ''Ann'', phones = [], birthday = Some \<lparr>year = 1990, month = 1, day = 8\<rparr>\<rparr>"
  let ?b = "\<lparr>name = str ''Bob'', phones = [], birthday = Some \<lparr>year = 1991, month = 1, day = 9\<rparr>\<rparr>"
  let ?c = "\<lparr>name = str ''Cy'', phones = [], birthday = Some \<lparr>year = 1992, month = 1, day = 1\<rparr>\<rparr>"
  let ?d = "\<lparr>name = str ''Dee'', phones = [], birthday = None\<rparr>"
  let ?book = "[(str ''ann'', ?a), (str ''bob'', ?b), (str ''cy'', ?c), (str ''dee'', ?d)]"
  have v: "days_to_birthday ?t ?a = Inr (Some 7)" "days_to_birthday ?t ?b = Inr (Some 8)"
    "days_to_birthday ?t ?c = Inr (Some 0)" "days_to_birthday ?t ?d = Inr None"
    by (simp_all add: date_eval)
  then have h: "\<forall>r \<in> set (map snd ?book). \<exists>v. days_to_birthday ?t r = Inr v" by simp
  from upcoming_birthdays_window [OF h] v
  have "get_upcoming_birthdays ?t 7 ?book = Inr [(str ''Ann'', 7), (str ''Cy'', 0)]" by simp
  with v show ?thesis by blast
qed

end
